theory Spec2Isabelle
  imports Complex_Main "HOL-Library.Char_ord" "HOL-Library.List_Lexorder"
begin

section \<open>Values, errors and the clock\<close>

text \<open>
  The pipeline of \<^verbatim>\<open>src/api.py\<close> works on pandas tables. A float64 cell is modelled as a
  \<open>real option\<close>: \<open>None\<close> is NaN (pandas' missing value), \<open>Some x\<close> a number, with the
  arithmetic of the reals (rounding is not modelled). A timestamp is an \<open>int\<close>, the seconds since
  the epoch of a timezone-naive instant; a calendar day is an \<open>int\<close> too, the days since the
  epoch. Every function that reads the clock (\<^verbatim>\<open>datetime.now()\<close>, \<^verbatim>\<open>datetime.today()\<close>,
  \<^verbatim>\<open>pd.Timestamp.now()\<close>) takes the instant it reads as its first argument \<open>now\<close>.
\<close>

datatype error =
    KeyError            \<comment> \<open>\<^verbatim>\<open>[1]\<close> on a split that produced no second column\<close>
  | NaTRange            \<comment> \<open>\<^verbatim>\<open>pd.date_range\<close> with a NaT start: ValueError\<close>
  | DuplicateLabels     \<comment> \<open>\<^verbatim>\<open>reindex\<close> on an index with duplicates: ValueError\<close>
  | AttributeError      \<comment> \<open>\<^verbatim>\<open>df.index.day\<close> on an index that is not a DatetimeIndex\<close>

definition date_of :: "int \<Rightarrow> int" where
  \<comment> \<open>\<^verbatim>\<open>.date()\<close>, \<^verbatim>\<open>.normalize()\<close> and the daily bin of \<^verbatim>\<open>resample("d")\<close>\<close>
  "date_of t = t div 86400"

record obs =
  mag :: "real option"
  depth :: "real option"
  latitude :: "real option"
  longitude :: "real option"

record event = obs +
  time :: int
  place :: string

record row = obs +
  date :: int
  region :: "string option"

section \<open>Region canonicalizer\<close>

text \<open>
  \<^verbatim>\<open>df.place.str.split(", ", expand=True)\<close> cuts every place at the occurrences of the two
  characters comma, space, scanning from the left; \<open>split_from acc s\<close> is the scan with the
  piece read so far in \<open>acc\<close>. Every event of the model has a place and a time: a row of the
  feed without a place would have a NaN region and fall out of every group.
\<close>

fun split_from :: "string \<Rightarrow> string \<Rightarrow> string list" where
  "split_from acc [] = [acc]"
| "split_from acc [c] = [acc @ [c]]"
| "split_from acc (c # d # cs) =
     (if c = CHR '','' \<and> d = CHR '' '' then acc # split_from [] cs
      else split_from (acc @ [c]) (d # cs))"

definition str_split :: "string \<Rightarrow> string list" where
  "str_split s = split_from [] s"

definition split_second :: "string \<Rightarrow> string option" where
  \<comment> \<open>the cell of column \<open>1\<close> of the expanded split: the second piece, None when there is none\<close>
  "split_second s = (case str_split s of a # b # _ \<Rightarrow> Some b | _ \<Rightarrow> None)"

definition replace_alias :: "string \<Rightarrow> string" where
  \<comment> \<open>\<^verbatim>\<open>df.region.replace({"CA": "California", "B.C.": "Baja California"})\<close>\<close>
  "replace_alias r =
     (if r = ''CA'' then ''California''
      else if r = ''B.C.'' then ''Baja California''
      else r)"

definition canonical_region :: "string \<Rightarrow> string" where
  \<comment> \<open>one row of lines 130-132: the second piece, \<^verbatim>\<open>fillna(df.place)\<close>, then the aliases\<close>
  "canonical_region p =
     replace_alias (case split_second p of None \<Rightarrow> p | Some r \<Rightarrow> r)"

definition region_column :: "event list \<Rightarrow> error + string list" where
  \<comment> \<open>the whole column: \<^verbatim>\<open>[1]\<close> raises KeyError when no row of the table has a second piece\<close>
  "region_column df =
     (if \<forall>e \<in> set df. split_second (place e) = None then Inl KeyError
      else Inr (map (\<lambda>e. canonical_region (place e)) df))"

definition known_regions :: "string list" where
  "known_regions =
     [''California'', ''Alaska'', ''Nevada'', ''Hawaii'', ''Washington'', ''Utah'',
      ''Montana'', ''Puerto Rico'', ''Indonesia'', ''Chile'', ''Baja California'',
      ''Oklahoma'', ''Japan'', ''Greece'', ''Papua New Guinea'', ''Philippines'',
      ''Mexico'', ''Italy'', ''Russia'', ''Idaho'', ''Aleutian Islands'', ''Tonga'',
      ''Oregon'', ''Wyoming'', ''Turkey'']"

definition get_regions :: "event list \<Rightarrow> error + string set" where
  \<comment> \<open>\<open>recent\<close> is the table \<^verbatim>\<open>get_recent_earthquakes()\<close> returns to \<^verbatim>\<open>get_regions\<close>\<close>
  "get_regions recent =
     (case region_column recent of
        Inl e \<Rightarrow> Inl e
      | Inr rs \<Rightarrow> Inr (set known_regions \<inter> set rs))"

section \<open>Daily aligner\<close>

fun mean :: "real option list \<Rightarrow> real option" where
  \<comment> \<open>the mean of the cells that are not NaN; NaN when there is none\<close>
  "mean xs =
     (let vs = List.map_filter id xs
      in if vs = [] then None else Some (sum_list vs / real (length vs)))"

definition resample_day :: "string \<Rightarrow> event list \<Rightarrow> int \<Rightarrow> row" where
  "resample_day r evs d =
     (let es = filter (\<lambda>e. date_of (time e) = d) evs
      in \<lparr> mag = mean (map mag es), depth = mean (map depth es),
           latitude = mean (map latitude es), longitude = mean (map longitude es),
           date = d, region = Some r \<rparr>)"

definition resample_group :: "string \<Rightarrow> event list \<Rightarrow> row list" where
  \<comment> \<open>one group of \<^verbatim>\<open>groupby("region").resample("d").mean()\<close>: a bin for every day from the
      group's first to its last event (the group is sorted by time and not empty)\<close>
  "resample_group r evs =
     map (resample_day r evs) [date_of (time (hd evs)) .. date_of (time (last evs))]"

definition group_keys :: "string list \<Rightarrow> string list" where
  \<comment> \<open>the keys of a groupby: distinct, sorted\<close>
  "group_keys rs = sort (remdups rs)"

definition resample_daily :: "(string \<times> event) list \<Rightarrow> row list" where
  \<comment> \<open>lines 141-142, groups stacked in key order\<close>
  "resample_daily tbl =
     concat (map (\<lambda>r. resample_group r (map snd (filter (\<lambda>x. fst x = r) tbl)))
                 (group_keys (map fst tbl)))"

definition nan_row :: "int \<Rightarrow> row" where
  "nan_row d = \<lparr> mag = None, depth = None, latitude = None, longitude = None,
                 date = d, region = None \<rparr>"

fun index_min :: "int list \<Rightarrow> int option" where
  \<comment> \<open>\<^verbatim>\<open>df.index.min()\<close>; NaT (None) on an empty index\<close>
  "index_min [] = None"
| "index_min (d # ds) = Some (fold min ds d)"

definition lookup_row :: "row list \<Rightarrow> int \<Rightarrow> row" where
  \<comment> \<open>the row of day \<open>d\<close>, a NaN row where the table has none\<close>
  "lookup_row df d = (case find (\<lambda>x. date x = d) df of None \<Rightarrow> nan_row d | Some x \<Rightarrow> x)"

definition df_reindex :: "row list \<Rightarrow> int list \<Rightarrow> error + row list" where
  \<comment> \<open>\<^verbatim>\<open>df.reindex(date_range)\<close>: the row of each day of the range; pandas refuses an index
      with duplicate labels\<close>
  "df_reindex df days =
     (if \<not> distinct (map date df) then Inl DuplicateLabels
      else Inr (map (lookup_row df) days))"

definition orelse :: "'a option \<Rightarrow> 'a option \<Rightarrow> 'a option" where
  "orelse x y = (case x of None \<Rightarrow> y | Some v \<Rightarrow> Some v)"

definition fill_row :: "row \<Rightarrow> row \<Rightarrow> row" where
  \<comment> \<open>one step of \<^verbatim>\<open>df.ffill()\<close>: every NaN cell takes the cell of the (filled) row above\<close>
  "fill_row prev x =
     x\<lparr> mag := orelse (mag x) (mag prev), depth := orelse (depth x) (depth prev),
        latitude := orelse (latitude x) (latitude prev),
        longitude := orelse (longitude x) (longitude prev),
        region := orelse (region x) (region prev) \<rparr>"

definition fill_region :: "row \<Rightarrow> row \<Rightarrow> row" where
  \<comment> \<open>one step of \<^verbatim>\<open>df.region = df.region.ffill()\<close>: the region cell only\<close>
  "fill_region prev x = x\<lparr> region := orelse (region x) (region prev) \<rparr>"

fun ffill_from :: "(row \<Rightarrow> row \<Rightarrow> row) \<Rightarrow> row \<Rightarrow> row list \<Rightarrow> row list" where
  "ffill_from f prev [] = []"
| "ffill_from f prev (x # xs) = (let y = f prev x in y # ffill_from f y xs)"

definition ffill :: "row list \<Rightarrow> row list" where
  "ffill df = ffill_from fill_row (nan_row 0) df"

definition ffill_region :: "row list \<Rightarrow> row list" where
  "ffill_region df = ffill_from fill_region (nan_row 0) df"

definition date_range :: "int option \<Rightarrow> int \<Rightarrow> error + int list" where
  \<comment> \<open>\<^verbatim>\<open>pd.date_range(start, end, freq="d")\<close>: empty when start is after end, ValueError on NaT\<close>
  "date_range start end =
     (case start of None \<Rightarrow> Inl NaTRange | Some s \<Rightarrow> Inr [s .. end])"

definition reindex :: "int \<Rightarrow> row list \<Rightarrow> int \<Rightarrow> error + row list" where
  \<comment> \<open>lines 120-124\<close>
  "reindex now grp delta =
     (case date_range (index_min (map date grp)) (date_of now + delta) of
        Inl e \<Rightarrow> Inl e
      | Inr days \<Rightarrow>
          (case df_reindex grp days of
             Inl e \<Rightarrow> Inl e
           | Inr g \<Rightarrow> Inr (ffill g)))"

fun sequence :: "(error + 'a) list \<Rightarrow> error + 'a list" where
  \<comment> \<open>the first error raised stops the run\<close>
  "sequence [] = Inr []"
| "sequence (x # xs) =
     (case x of
        Inl e \<Rightarrow> Inl e
      | Inr v \<Rightarrow> (case sequence xs of Inl e \<Rightarrow> Inl e | Inr vs \<Rightarrow> Inr (v # vs)))"

definition row_keys :: "row list \<Rightarrow> string list" where
  \<comment> \<open>the groups of \<^verbatim>\<open>df.groupby("region")\<close>: rows with a NaN region are in no group\<close>
  "row_keys df = group_keys (List.map_filter region df)"

definition group_of :: "string \<Rightarrow> 'a row_scheme list \<Rightarrow> 'a row_scheme list" where
  \<comment> \<open>the rows of one group, in the order of the table\<close>
  "group_of r df = filter (\<lambda>x. region x = Some r) df"

definition groupby_reindex :: "int \<Rightarrow> int \<Rightarrow> row list \<Rightarrow> error + row list" where
  \<comment> \<open>\<^verbatim>\<open>df.groupby("region")[...].apply(lambda group: reindex(group, delta)).reset_index(0, drop=True)\<close>:
      the groups in key order, stacked. Each call of \<^verbatim>\<open>reindex\<close> reads the clock; the one
      reading \<open>now\<close> of the caller stands for all of them\<close>
  "groupby_reindex now delta df =
     (case sequence (map (\<lambda>r. reindex now (group_of r df) delta) (row_keys df)) of
        Inl e \<Rightarrow> Inl e
      | Inr gs \<Rightarrow> Inr (concat gs))"

definition isin :: "string set \<Rightarrow> row \<Rightarrow> bool" where
  \<comment> \<open>\<^verbatim>\<open>df.region.isin(regions)\<close>\<close>
  "isin regions x = (case region x of None \<Rightarrow> False | Some r \<Rightarrow> r \<in> regions)"

definition preprocess_data ::
    "int \<Rightarrow> event list \<Rightarrow> event list \<Rightarrow> string option \<Rightarrow> error + row list" where
  \<comment> \<open>lines 127-163; \<open>recent\<close> is the table behind \<^verbatim>\<open>get_regions()\<close>\<close>
  "preprocess_data now recent df0 target =
     (case region_column df0 of
        Inl e \<Rightarrow> Inl e
      | Inr rs \<Rightarrow>
          (let df = resample_daily (sort_key (\<lambda>x. time (snd x)) (zip rs df0))
           in case target of
                None \<Rightarrow>
                  (case get_regions recent of
                     Inl e \<Rightarrow> Inl e
                   | Inr regions \<Rightarrow> groupby_reindex now 0 (filter (isin regions) df))
              | Some r \<Rightarrow>
                  (let df = group_of r df
                   in case date_range (index_min (map date df)) (date_of now) of
                        Inl e \<Rightarrow> Inl e
                      | Inr days \<Rightarrow>
                          (case df_reindex df days of
                             Inl e \<Rightarrow> Inl e
                           | Inr g \<Rightarrow> Inr (ffill g)))))"


section \<open>Horizon extender and feature builder\<close>

definition START_LAG :: nat where "START_LAG = 3"
definition END_LAG :: nat where "END_LAG = 10"

definition lags :: "nat list" where
  \<comment> \<open>\<^verbatim>\<open>range(_START_LAG, _END_LAG + 1)\<close>\<close>
  "lags = [START_LAG ..< END_LAG + 1]"

definition shift :: "nat \<Rightarrow> 'a option list \<Rightarrow> 'a option list" where
  \<comment> \<open>\<^verbatim>\<open>Series.shift(i)\<close>: by position, NaN in the first \<open>i\<close> cells\<close>
  "shift i xs = replicate (min i (length xs)) None @ take (length xs - i) xs"

definition window_mean :: "real list \<Rightarrow> real" where
  "window_mean vs = sum_list vs / real (length vs)"

definition window_std :: "real list \<Rightarrow> real" where
  \<comment> \<open>the sample standard deviation (ddof = 1)\<close>
  "window_std vs =
     sqrt (sum_list (map (\<lambda>v. (v - window_mean vs)\<^sup>2) vs) / real (length vs - 1))"

definition rolling :: "nat \<Rightarrow> (real list \<Rightarrow> real) \<Rightarrow> real option list \<Rightarrow> real option list" where
  \<comment> \<open>\<^verbatim>\<open>x.rolling(window=w)\<close> with its default \<^verbatim>\<open>min_periods = w\<close>: the statistic of the
      \<open>w\<close> cells ending at each position, NaN when there are fewer or one of them is NaN\<close>
  "rolling w agg xs =
     map (\<lambda>k. if k + 1 < w then None
               else (let win = take w (drop (k + 1 - w) xs)
                     in if None \<in> set win then None
                        else Some (agg (List.map_filter id win))))
         [0 ..< length xs]"

definition group_transform ::
    "(real option list \<Rightarrow> real option list) \<Rightarrow> (row \<Rightarrow> real option) \<Rightarrow> row list
       \<Rightarrow> real option list" where
  \<comment> \<open>\<^verbatim>\<open>df.groupby("region").col.shift(i)\<close> and \<^verbatim>\<open>df.groupby("region").col.transform(f)\<close>:
      \<open>f\<close> runs on the column of each group, and each cell returns to the position of its
      row; a row with a NaN region is in no group and gets NaN\<close>
  "group_transform f col df =
     map (\<lambda>k. case region (df ! k) of
                 None \<Rightarrow> None
               | Some r \<Rightarrow> f (map col (group_of r df)) ! length (group_of r (take k df)))
         [0 ..< length df]"

text \<open>
  The calendar fields of a day: \<open>civil d\<close> is (year, month, day of month) of the day number
  \<open>d\<close> in the proleptic Gregorian calendar that pandas uses.
\<close>

definition civil :: "int \<Rightarrow> int \<times> int \<times> int" where
  "civil d =
     (let z = d + 719468;
          era = z div 146097;
          doe = z - era * 146097;
          yoe = (doe - doe div 1460 + doe div 36524 - doe div 146096) div 365;
          doy = doe - (365 * yoe + yoe div 4 - yoe div 100);
          mp = (5 * doy + 2) div 153;
          dom = doy - (153 * mp + 2) div 5 + 1;
          m = (if mp < 10 then mp + 3 else mp - 9);
          y = yoe + era * 400 + (if m \<le> 2 then 1 else 0)
      in (y, m, dom))"

definition index_day :: "int \<Rightarrow> int" where
  "index_day d = snd (snd (civil d))"

definition index_dayofweek :: "int \<Rightarrow> int" where
  \<comment> \<open>Monday is 0; day 0 (1970-01-01) was a Thursday\<close>
  "index_dayofweek d = (d + 3) mod 7"

definition days_from_civil :: "int \<Rightarrow> int \<Rightarrow> int \<Rightarrow> int" where
  "days_from_civil y m dd =
     (let y' = (if m \<le> 2 then y - 1 else y);
          era = y' div 400;
          yoe = y' - era * 400;
          doy = (153 * (if m > 2 then m - 3 else m + 9) + 2) div 5 + dd - 1;
          doe = yoe * 365 + yoe div 4 - yoe div 100 + doy
      in era * 146097 + doe - 719468)"

definition index_dayofyear :: "int \<Rightarrow> int" where
  "index_dayofyear d = d - days_from_civil (fst (civil d)) 1 1 + 1"

record frow = row +
  day :: int
  dayofweek :: int
  dayofyear :: int
  mag_lag :: "real option list"      \<comment> \<open>the columns \<^verbatim>\<open>mag_lag_3\<close> ... \<^verbatim>\<open>mag_lag_10\<close>, in order\<close>
  depth_lag :: "real option list"    \<comment> \<open>the columns \<^verbatim>\<open>depth_lag_3\<close> ... \<^verbatim>\<open>depth_lag_10\<close>\<close>
  mag_rolling_mean_3 :: "real option"
  mag_rolling_std_3 :: "real option"
  depth_rolling_mean_3 :: "real option"
  depth_rolling_std_3 :: "real option"
  mag_rolling_mean_10 :: "real option"
  mag_rolling_std_10 :: "real option"
  depth_rolling_mean_10 :: "real option"
  depth_rolling_std_10 :: "real option"

definition mag_lag_at :: "frow \<Rightarrow> nat \<Rightarrow> real option" where
  \<comment> \<open>the cell of column \<^verbatim>\<open>mag_lag_i\<close>\<close>
  "mag_lag_at fr i = mag_lag fr ! (i - START_LAG)"

definition depth_lag_at :: "frow \<Rightarrow> nat \<Rightarrow> real option" where
  "depth_lag_at fr i = depth_lag fr ! (i - START_LAG)"

type_synonym transform_cell =
  "(real option list \<Rightarrow> real option list) \<Rightarrow> (row \<Rightarrow> real option) \<Rightarrow> real option"

definition frow_of :: "row \<Rightarrow> transform_cell \<Rightarrow> frow" where
  \<comment> \<open>the columns that lines 186-216 add to one row; \<open>cell f col\<close> is the cell of this row in
      the column that \<open>f\<close> makes of column \<open>col\<close>\<close>
  "frow_of x cell =
     \<lparr> mag = mag x, depth = depth x, latitude = latitude x, longitude = longitude x,
       date = date x, region = region x,
       day = index_day (date x),
       dayofweek = index_dayofweek (date x),
       dayofyear = index_dayofyear (date x),
       mag_lag = map (\<lambda>i. cell (shift i) mag) lags,
       depth_lag = map (\<lambda>i. cell (shift i) depth) lags,
       mag_rolling_mean_3 = cell (rolling START_LAG window_mean) mag,
       mag_rolling_std_3 = cell (rolling START_LAG window_std) mag,
       depth_rolling_mean_3 = cell (rolling START_LAG window_mean) depth,
       depth_rolling_std_3 = cell (rolling START_LAG window_std) depth,
       mag_rolling_mean_10 = cell (rolling END_LAG window_mean) mag,
       mag_rolling_std_10 = cell (rolling END_LAG window_std) mag,
       depth_rolling_mean_10 = cell (rolling END_LAG window_mean) depth,
       depth_rolling_std_10 = cell (rolling END_LAG window_std) depth \<rparr>"

definition add_features :: "row list \<Rightarrow> frow list" where
  \<comment> \<open>lines 186-216: every added column is a \<^verbatim>\<open>groupby("region")\<close> shift or transform\<close>
  "add_features df =
     map (\<lambda>k. frow_of (df ! k) (\<lambda>f col. group_transform f col df ! k)) [0 ..< length df]"

definition extend_grid ::
    "int \<Rightarrow> event list \<Rightarrow> row list \<Rightarrow> string option \<Rightarrow> error + row list" where
  \<comment> \<open>lines 169-186: the horizon extension of \<^verbatim>\<open>create_features\<close>, up to the first
      use of the index. In the all-regions path a table with no whitelisted row makes an empty
      groupby: \<^verbatim>\<open>apply\<close> then returns a frame indexed by the (empty) group keys,
      \<^verbatim>\<open>reset_index(0, drop=True)\<close> leaves a RangeIndex, and \<^verbatim>\<open>df.index.day\<close> at line 186
      raises AttributeError\<close>
  "extend_grid now recent df target =
     (case target of
        None \<Rightarrow>
          (case get_regions recent of
             Inl e \<Rightarrow> Inl e
           | Inr regions \<Rightarrow>
               (let dfw = filter (isin regions) df
                in if row_keys dfw = [] then Inl AttributeError
                   else groupby_reindex now 3 dfw))
      | Some r \<Rightarrow>
          (case date_range (index_min (map date df)) (date_of now + 3) of
             Inl e \<Rightarrow> Inl e
           | Inr days \<Rightarrow>
               (case df_reindex df days of
                  Inl e \<Rightarrow> Inl e
                | Inr g \<Rightarrow> Inr (ffill_region g))))"

definition create_features ::
    "int \<Rightarrow> event list \<Rightarrow> row list \<Rightarrow> string option \<Rightarrow> error + frow list" where
  \<comment> \<open>lines 166-218: the extended grid, or the error raised on the way to it, then the
      feature columns\<close>
  "create_features now recent df target =
     (case extend_grid now recent df target of
        Inl e \<Rightarrow> Inl e
      | Inr g \<Rightarrow> Inr (add_features g))"

section \<open>Forecast assembler\<close>

record forecast_row =
  Date :: int
  Magnitude :: "real option"
  Magnitude_Forecast :: "real option"
  Depth :: "real option"
  Depth_Forecast :: "real option"
  Region :: "string option"
  Latitude :: "real option"
  Longitude :: "real option"

type_synonym model_input = "real option list \<times> string option"

text \<open>
  The regression model is a parameter: \<^verbatim>\<open>model.predict\<close> maps the table of feature rows to
  one pair (magnitude, depth) per row.
\<close>

type_synonym model = "model_input list \<Rightarrow> (real \<times> real) list"

definition model_input :: "frow \<Rightarrow> model_input" where
  \<comment> \<open>\<^verbatim>\<open>df[features + cat_features]\<close>, the columns in the order of lines 226-243\<close>
  "model_input fr =
     ([Some (real_of_int (day fr)), Some (real_of_int (dayofweek fr)),
       Some (real_of_int (dayofyear fr)),
       mag_rolling_mean_3 fr, mag_rolling_std_3 fr,
       depth_rolling_mean_3 fr, depth_rolling_std_3 fr,
       mag_rolling_mean_10 fr, mag_rolling_std_10 fr,
       depth_rolling_mean_10 fr, depth_rolling_std_10 fr]
      @ mag_lag fr @ depth_lag fr,
      region fr)"

definition join_forecast :: "frow list \<Rightarrow> (real \<times> real) list \<Rightarrow> forecast_row list" where
  \<comment> \<open>lines 245-258: the predictions joined to the rows by position (a row beyond the last
      prediction gets NaN), projected and renamed\<close>
  "join_forecast df preds =
     map (\<lambda>k. let fr = df ! k in
            \<lparr> Date = date fr, Magnitude = mag fr,
              Magnitude_Forecast = (if k < length preds then Some (fst (preds ! k)) else None),
              Depth = depth fr,
              Depth_Forecast = (if k < length preds then Some (snd (preds ! k)) else None),
              Region = region fr, Latitude = latitude fr, Longitude = longitude fr \<rparr>)
         [0 ..< length df]"

definition feature_table ::
    "int \<Rightarrow> int \<Rightarrow> event list \<Rightarrow> string option \<Rightarrow> error + frow list" where
  \<comment> \<open>lines 223-225 of \<^verbatim>\<open>get_forecast\<close>. \<open>t1\<close> and \<open>t2\<close> are the clock readings of
      \<^verbatim>\<open>preprocess_data\<close> and \<^verbatim>\<open>create_features\<close>; the cached
      \<^verbatim>\<open>get_recent_earthquakes()\<close> gives the same table \<open>events\<close> to every caller\<close>
  "feature_table t1 t2 events target =
     (case preprocess_data t1 events events target of
        Inl e \<Rightarrow> Inl e
      | Inr g \<Rightarrow> create_features t2 events g target)"

definition assemble ::
    "model \<Rightarrow> int \<Rightarrow> int \<Rightarrow> event list \<Rightarrow> string option \<Rightarrow> error + forecast_row list" where
  \<comment> \<open>lines 222-258 of \<^verbatim>\<open>get_forecast\<close>: the table before the window\<close>
  "assemble predict t1 t2 events target =
     (case feature_table t1 t2 events target of
        Inl e \<Rightarrow> Inl e
      | Inr df \<Rightarrow> Inr (join_forecast df (predict (map model_input df))))"

definition get_forecast ::
    "model \<Rightarrow> int \<Rightarrow> int \<Rightarrow> int \<Rightarrow> event list \<Rightarrow> string option
       \<Rightarrow> error + forecast_row list" where
  \<comment> \<open>lines 221-260; \<open>t3\<close> is the reading of \<^verbatim>\<open>pd.Timestamp.now()\<close> at line 259\<close>
  "get_forecast predict t1 t2 t3 events target =
     (case assemble predict t1 t2 events target of
        Inl e \<Rightarrow> Inl e
      | Inr df \<Rightarrow> Inr (filter (\<lambda>x. date_of t3 - 7 \<le> Date x) df))"

definition forecast_earthquakes ::
    "model \<Rightarrow> int \<Rightarrow> int \<Rightarrow> int \<Rightarrow> int \<Rightarrow> event list \<Rightarrow> error + forecast_row list" where
  \<comment> \<open>lines 263-267; \<open>t4\<close> is the reading at line 265\<close>
  "forecast_earthquakes predict t1 t2 t3 t4 events =
     (case get_forecast predict t1 t2 t3 events None of
        Inl e \<Rightarrow> Inl e
      | Inr df \<Rightarrow> Inr (filter (\<lambda>x. date_of t4 \<le> Date x) df))"

section \<open>Reference definitions for the statements\<close>

text \<open>
  The reading of the region contract in the specification's words: the text after the first
  delimiter, and the text before the first delimiter.
\<close>

fun after_first :: "string \<Rightarrow> string option" where
  "after_first [] = None"
| "after_first [c] = None"
| "after_first (c # d # cs) =
     (if c = CHR '','' \<and> d = CHR '' '' then Some cs else after_first (d # cs))"

fun before_first :: "string \<Rightarrow> string" where
  "before_first [] = []"
| "before_first [c] = [c]"
| "before_first (c # d # cs) =
     (if c = CHR '','' \<and> d = CHR '' '' then [] else c # before_first (d # cs))"

definition spec_canonical_region :: "string \<Rightarrow> string" where
  \<comment> \<open>the canonicalizer as the specification words it: everything after the first delimiter\<close>
  "spec_canonical_region p =
     replace_alias (case after_first p of None \<Rightarrow> p | Some rest \<Rightarrow> rest)"

definition reindexed :: "row list \<Rightarrow> int \<Rightarrow> row list" where
  \<comment> \<open>what \<open>reindex\<close> returns on a group with a unique index: the rows of the days from the
      group's first day to \<open>e\<close>, forward-filled\<close>
  "reindexed g e = ffill (map (lookup_row g) [Min (date ` set g) .. e])"

definition group_features :: "row list \<Rightarrow> frow list" where
  \<comment> \<open>the feature rows of one group, computed from the rows of that group alone\<close>
  "group_features g =
     map (\<lambda>p. frow_of (g ! p) (\<lambda>f col. f (map col g) ! p)) [0 ..< length g]"

definition region_events :: "string \<Rightarrow> event list \<Rightarrow> event list" where
  \<comment> \<open>the events that canonicalize to region \<open>r\<close>, in time order\<close>
  "region_events r df0 = sort_key time (filter (\<lambda>e. canonical_region (place e) = r) df0)"

definition first_day :: "string \<Rightarrow> event list \<Rightarrow> int" where
  \<comment> \<open>the earliest observed day of region \<open>r\<close> (for a region with an event)\<close>
  "first_day r df0 =
     Min (set (map (\<lambda>e. date_of (time e))
                   (filter (\<lambda>e. canonical_region (place e) = r) df0)))"

definition daily :: "string \<Rightarrow> event list \<Rightarrow> row list" where
  \<comment> \<open>the daily bins of region \<open>r\<close> after line 141\<close>
  "daily r df0 = resample_group r (region_events r df0)"

definition dense_block :: "int \<Rightarrow> string \<Rightarrow> event list \<Rightarrow> row list" where
  \<comment> \<open>the rows of region \<open>r\<close> in the dense grid of \<^verbatim>\<open>preprocess_data\<close>\<close>
  "dense_block now r df0 = reindexed (daily r df0) (date_of now)"

definition dense_table :: "event list \<Rightarrow> row list" where
  \<comment> \<open>the table after line 142: every region's daily bins\<close>
  "dense_table df0 =
     resample_daily (sort_key (\<lambda>x. time (snd x))
        (zip (map (\<lambda>e. canonical_region (place e)) df0) df0))"

definition extended_grid ::
    "int \<Rightarrow> int \<Rightarrow> event list \<Rightarrow> string option \<Rightarrow> error + row list" where
  \<comment> \<open>the grid that the feature columns are computed on: lines 224 and 169-184\<close>
  "extended_grid t1 t2 events target =
     (case preprocess_data t1 events events target of
        Inl e \<Rightarrow> Inl e
      | Inr g \<Rightarrow> extend_grid t2 events g target)"

definition extended_block ::
    "int \<Rightarrow> int \<Rightarrow> string option \<Rightarrow> string \<Rightarrow> event list \<Rightarrow> row list" where
  \<comment> \<open>the rows of region \<open>r\<close> in the extended grid: the dense rows and the appended days,
      forward-filled in every column (all regions) or in the region column (one region)\<close>
  "extended_block t1 t2 target r df0 =
     (let rows = map (lookup_row (dense_block t1 r df0)) [first_day r df0 .. date_of t2 + 3]
      in case target of None \<Rightarrow> ffill rows | Some _ \<Rightarrow> ffill_region rows)"

section \<open>Example tables\<close>

definition quake :: "int \<Rightarrow> string \<Rightarrow> real \<Rightarrow> real \<Rightarrow> event" where
  \<comment> \<open>an event record: time, place, magnitude, depth\<close>
  "quake t p m d =
     \<lparr> mag = Some m, depth = Some d, latitude = Some 38, longitude = Some (- 122),
       time = t, place = p \<rparr>"

definition demo_events :: "event list" where
  \<comment> \<open>two California events (days 0 and 2) and one Alaska event (day 1)\<close>
  "demo_events =
     [quake 10 ''4 km N of X, CA'' 1 5,
      quake (86400 * 2 + 10) ''4 km N of X, CA'' 3 7,
      quake (86400 + 20) ''10 km S of Y, Alaska'' 2 9]"

definition demo_now :: int where
  \<comment> \<open>an instant of day 4\<close>
  "demo_now = 86400 * 4 + 100"

definition demo_grid :: "row list" where
  "demo_grid = projr (extended_grid demo_now demo_now demo_events None)"

definition demo_table :: "frow list" where
  "demo_table = add_features demo_grid"


definition demo_grid_one :: "row list" where
  "demo_grid_one = projr (extended_grid demo_now demo_now demo_events (Some ''California''))"

definition demo_table_one :: "frow list" where
  "demo_table_one = add_features demo_grid_one"

definition solo_events :: "event list" where
  \<comment> \<open>one California event, on day 0\<close>
  "solo_events = [quake 10 ''4 km N of X, CA'' 2 5]"

definition solo_grid :: "row list" where
  \<comment> \<open>the extended grid of \<open>solo_events\<close> on day 0, all regions requested\<close>
  "solo_grid =
     map (\<lambda>d. \<lparr> mag = Some 2, depth = Some 5, latitude = Some 38, longitude = Some (- 122),
                 date = d, region = Some ''California'' \<rparr>)
         [0, 1, 2, 3]"

definition late_now :: int where
  \<comment> \<open>an instant of day 10\<close>
  "late_now = 86400 * 10 + 100"

definition late_grid :: "row list" where
  "late_grid = projr (extended_grid late_now late_now solo_events None)"

definition late_table :: "frow list" where
  \<comment> \<open>the feature table of \<open>solo_events\<close> on day 10: eleven days of history\<close>
  "late_table = add_features late_grid"

definition blank_events :: "event list" where
  \<comment> \<open>one California event on day 0 whose magnitude and depth are missing\<close>
  "blank_events =
     [\<lparr> mag = None, depth = None, latitude = Some 38, longitude = Some (- 122),
        time = 10, place = ''4 km N of X, CA'' \<rparr>]"

definition blank_row :: "int \<Rightarrow> row" where
  "blank_row d =
     \<lparr> mag = None, depth = None, latitude = Some 38, longitude = Some (- 122),
       date = d, region = Some ''California'' \<rparr>"

definition blank_dense :: "row list" where
  \<comment> \<open>the dense grid of \<open>blank_events\<close> on day 10\<close>
  "blank_dense = map blank_row [0, 1, 2, 3, 4, 5, 6, 7, 8, 9, 10]"

definition blank_grid :: "row list" where
  \<comment> \<open>its extension\<close>
  "blank_grid = map blank_row [0, 1, 2, 3, 4, 5, 6, 7, 8, 9, 10, 11, 12, 13]"

definition scenario_events :: "event list" where
  \<comment> \<open>California, one event on each of the days 1 to 12, magnitudes 1.0, 1.1, ..., 2.1\<close>
  "scenario_events =
     map (\<lambda>d. quake (86400 * d + 10) ''4 km N of X, CA'' ((9 + real_of_int d) / 10) 5)
         [1, 2, 3, 4, 5, 6, 7, 8, 9, 10, 11, 12]"

definition scenario_now :: int where
  \<comment> \<open>an instant of day 12\<close>
  "scenario_now = 86400 * 12 + 100"

definition scenario_grid :: "string option \<Rightarrow> row list" where
  "scenario_grid target = projr (extended_grid scenario_now scenario_now scenario_events target)"

definition scenario_table :: "string option \<Rightarrow> frow list" where
  "scenario_table target = add_features (scenario_grid target)"

definition offlist_events :: "event list" where
  \<comment> \<open>one event, in a region that is not on the whitelist\<close>
  "offlist_events = [quake 10 ''10 km S of Z, Fiji'' 4 10]"

definition const_model :: model where
  \<comment> \<open>a model that predicts magnitude 5 and depth 10 for every row\<close>
  "const_model rows = map (\<lambda>_. (5, 10)) rows"

definition demo_events_alt :: "event list" where
  \<comment> \<open>\<open>demo_events\<close> with another magnitude and depth for the Alaska event\<close>
  "demo_events_alt =
     [quake 10 ''4 km N of X, CA'' 1 5,
      quake (86400 * 2 + 10) ''4 km N of X, CA'' 3 7,
      quake (86400 + 20) ''10 km S of Y, Alaska'' 6 30]"

definition demo_grid_alt :: "row list" where
  "demo_grid_alt = projr (extended_grid demo_now demo_now demo_events_alt None)"

definition demo_table_alt :: "frow list" where
  "demo_table_alt = add_features demo_grid_alt"

definition demo_forecast :: "forecast_row list" where
  "demo_forecast = join_forecast demo_table (const_model (map model_input demo_table))"

section \<open>Auxiliary lemmas\<close>

subsection \<open>Splitting\<close>

lemma split_from_cut:
  "split_from acc s =
     (case after_first s of
        None \<Rightarrow> [acc @ s]
      | Some rest \<Rightarrow> (acc @ before_first s) # split_from [] rest)"
  by (induction acc s rule: split_from.induct) (auto split: option.splits)

lemma before_first_whole: "after_first s = None \<Longrightarrow> before_first s = s"
  by (induction s rule: after_first.induct) (auto split: if_splits)

lemma hd_split_from: "hd (split_from [] s) = before_first s"
  by (subst split_from_cut) (simp add: before_first_whole split: option.splits)

lemma split_second_cut:
  "split_second p = (case after_first p of None \<Rightarrow> None | Some rest \<Rightarrow> Some (before_first rest))"
proof (cases "after_first p")
  case None
  then show ?thesis by (simp add: split_second_def str_split_def split_from_cut[of "[]" p])
next
  case (Some rest)
  have "split_from [] rest \<noteq> []" by (subst split_from_cut) (simp split: option.splits)
  then obtain a as where "split_from [] rest = a # as" by (cases "split_from [] rest") auto
  moreover from this have "a = before_first rest" using hd_split_from[of rest] by simp
  ultimately show ?thesis using Some
    by (simp add: split_second_def str_split_def split_from_cut[of "[]" p])
qed

subsection \<open>Lists\<close>

lemma sequence_map_Inr:
  "sequence (map f ks) = Inr bs \<Longrightarrow> map f ks = map Inr bs"
proof (induction ks arbitrary: bs)
  case Nil then show ?case by simp
next
  case (Cons k ks)
  then show ?case by (auto split: sum.splits)
qed

lemma sequence_blocks:
  assumes "sequence (map f ks) = Inr bs"
  shows "bs = map (\<lambda>k. projr (f k)) ks" and "\<And>k. k \<in> set ks \<Longrightarrow> f k = Inr (projr (f k))"
proof -
  have m: "map f ks = map Inr bs" using assms by (rule sequence_map_Inr)
  then have len: "length ks = length bs" by (metis length_map)
  have nth: "\<And>j. j < length ks \<Longrightarrow> f (ks ! j) = Inr (bs ! j)"
    using m len by (metis nth_map)
  show "bs = map (\<lambda>k. projr (f k)) ks"
    by (rule nth_equalityI) (use len nth in auto)
  fix k assume "k \<in> set ks"
  then obtain j where "j < length ks" "ks ! j = k" by (auto simp: in_set_conv_nth)
  then show "f k = Inr (projr (f k))" using nth by fastforce
qed

lemma sequence_all_Inr:
  "(\<And>k. k \<in> set ks \<Longrightarrow> f k = Inr (g k)) \<Longrightarrow> sequence (map f ks) = Inr (map g ks)"
  by (induction ks) auto

lemma group_of_concat:
  assumes "distinct ks" and "\<And>k x. k \<in> set ks \<Longrightarrow> x \<in> set (B k) \<Longrightarrow> region x = Some k"
  shows "group_of r (concat (map B ks)) = (if r \<in> set ks then B r else [])"
  using assms
proof (induction ks)
  case Nil then show ?case by (simp add: group_of_def)
next
  case (Cons k ks)
  have ih: "group_of r (concat (map B ks)) = (if r \<in> set ks then B r else [])"
    using Cons by simp
  have own: "group_of r (B k) = (if r = k then B k else [])"
    using Cons.prems(2)[of k] by (auto simp: group_of_def filter_empty_conv intro: filter_True)
  have "group_of r (concat (map B (k # ks))) = group_of r (B k) @ group_of r (concat (map B ks))"
    by (simp add: group_of_def)
  then show ?case using ih own Cons.prems(1) by auto
qed

lemma nth_filter_take:
  assumes "k < length xs" and "P (xs ! k)"
  shows "filter P xs ! length (filter P (take k xs)) = xs ! k"
    and "length (filter P (take k xs)) < length (filter P xs)"
proof -
  have xs: "xs = take k xs @ xs ! k # drop (Suc k) xs"
    using assms(1) by (simp add: id_take_nth_drop)
  have f: "filter P xs = filter P (take k xs) @ xs ! k # filter P (drop (Suc k) xs)"
    by (subst xs) (simp add: assms(2))
  show "filter P xs ! length (filter P (take k xs)) = xs ! k"
    by (subst f) simp
  have "length (filter P xs) = length (filter P (take k xs)) + Suc (length (filter P (drop (Suc k) xs)))"
    by (subst f) simp
  then show "length (filter P (take k xs)) < length (filter P xs)"
    by simp
qed

lemma pos_enum:
  "map (\<lambda>k. length (filter P (take k xs))) (filter (\<lambda>k. P (xs ! k)) [0 ..< length xs])
     = [0 ..< length (filter P xs)]"
proof (induction xs rule: rev_induct)
  case Nil then show ?case by simp
next
  case (snoc x xs)
  have a: "filter (\<lambda>k. P ((xs @ [x]) ! k)) [0 ..< length xs] = filter (\<lambda>k. P (xs ! k)) [0 ..< length xs]"
    by (rule filter_cong) (auto simp: nth_append)
  have b: "map (\<lambda>k. length (filter P (take k (xs @ [x])))) (filter (\<lambda>k. P (xs ! k)) [0 ..< length xs])
         = map (\<lambda>k. length (filter P (take k xs))) (filter (\<lambda>k. P (xs ! k)) [0 ..< length xs])"
    by (rule map_cong) auto
  show ?case using snoc a b by (simp add: nth_append)
qed



subsection \<open>Forward fill\<close>

lemma length_ffill_from [simp]: "length (ffill_from f p xs) = length xs"
  by (induction xs arbitrary: p) (auto simp: Let_def)

lemma ffill_from_nth:
  "j < length xs \<Longrightarrow>
     ffill_from f p xs ! j = f (if j = 0 then p else ffill_from f p xs ! (j - 1)) (xs ! j)"
proof (induction xs arbitrary: p j)
  case Nil then show ?case by simp
next
  case (Cons x xs)
  show ?case
  proof (cases j)
    case 0 then show ?thesis by (simp add: Let_def)
  next
    case (Suc i)
    then have "i < length xs" using Cons.prems by simp
    from Cons.IH[OF this, of "f p x"] Suc show ?thesis
      by (cases i) (auto simp: Let_def)
  qed
qed

lemma date_fill [simp]:
  "date (fill_row p x) = date x" "date (fill_region p x) = date x"
  by (simp_all add: fill_row_def fill_region_def)

lemma region_fill [simp]:
  "region (fill_row p x) = orelse (region x) (region p)"
  "region (fill_region p x) = orelse (region x) (region p)"
  by (simp_all add: fill_row_def fill_region_def)

lemma obs_fill_region [simp]:
  "mag (fill_region p x) = mag x" "depth (fill_region p x) = depth x"
  "latitude (fill_region p x) = latitude x" "longitude (fill_region p x) = longitude x"
  by (simp_all add: fill_region_def)

lemma obs_fill_row [simp]:
  "mag (fill_row p x) = orelse (mag x) (mag p)"
  "depth (fill_row p x) = orelse (depth x) (depth p)"
  "latitude (fill_row p x) = orelse (latitude x) (latitude p)"
  "longitude (fill_row p x) = orelse (longitude x) (longitude p)"
  by (simp_all add: fill_row_def)

lemma orelse_simps [simp]:
  "orelse None y = y" "orelse (Some v) y = Some v"
  by (simp_all add: orelse_def)

lemma map_date_ffill_from:
  assumes "\<And>p x. date (f p x) = date x"
  shows "map date (ffill_from f p xs) = map date xs"
  by (induction xs arbitrary: p) (auto simp: Let_def assms)

lemma map_date_ffill [simp]:
  "map date (ffill xs) = map date xs" "map date (ffill_region xs) = map date xs"
  by (simp_all add: ffill_def ffill_region_def map_date_ffill_from)

lemma length_ffill [simp]:
  "length (ffill xs) = length xs" "length (ffill_region xs) = length xs"
  by (simp_all add: ffill_def ffill_region_def)

lemma ffill_from_region:
  assumes f: "\<And>p x. region (f p x) = orelse (region x) (region p)"
    and all: "\<And>x. x \<in> set xs \<Longrightarrow> region x = None \<or> region x = Some r"
    and start: "region p = Some r \<or> (xs \<noteq> [] \<and> region (hd xs) = Some r)"
  shows "\<forall>y \<in> set (ffill_from f p xs). region y = Some r"
  using all start
proof (induction xs arbitrary: p)
  case Nil then show ?case by simp
next
  case (Cons x xs)
  have "region (f p x) = Some r"
    using Cons.prems(1)[of x] Cons.prems(2) by (auto simp: f)
  moreover have "\<forall>y \<in> set (ffill_from f (f p x) xs). region y = Some r"
  proof (rule Cons.IH)
    show "\<And>y. y \<in> set xs \<Longrightarrow> region y = None \<or> region y = Some r"
      using Cons.prems(1) by (meson list.set_intros(2))
    show "region (f p x) = Some r \<or> xs \<noteq> [] \<and> region (hd xs) = Some r"
      using calculation by blast
  qed
  ultimately show ?case by (simp add: Let_def)
qed

lemma ffill_region_obs:
  "map mag (ffill_region xs) = map mag xs" "map depth (ffill_region xs) = map depth xs"
  "map latitude (ffill_region xs) = map latitude xs"
  "map longitude (ffill_region xs) = map longitude xs"
proof -
  have "\<And>p. map mag (ffill_from fill_region p xs) = map mag xs
          \<and> map depth (ffill_from fill_region p xs) = map depth xs
          \<and> map latitude (ffill_from fill_region p xs) = map latitude xs
          \<and> map longitude (ffill_from fill_region p xs) = map longitude xs"
    by (induction xs) (auto simp: Let_def)
  then show "map mag (ffill_region xs) = map mag xs" "map depth (ffill_region xs) = map depth xs"
    "map latitude (ffill_region xs) = map latitude xs"
    "map longitude (ffill_region xs) = map longitude xs"
    by (simp_all add: ffill_region_def)
qed

subsection \<open>Reindexing\<close>

lemma nan_row_simps [simp]:
  "date (nan_row d) = d" "region (nan_row d) = None" "mag (nan_row d) = None"
  "depth (nan_row d) = None" "latitude (nan_row d) = None" "longitude (nan_row d) = None"
  by (simp_all add: nan_row_def)

lemma lookup_row_date [simp]: "date (lookup_row g d) = d"
  by (auto simp: lookup_row_def find_Some_iff split: option.splits)

lemma lookup_row_absent: "d \<notin> date ` set g \<Longrightarrow> lookup_row g d = nan_row d"
proof -
  assume "d \<notin> date ` set g"
  then have "find (\<lambda>x. date x = d) g = None" by (force simp: find_None_iff)
  then show ?thesis by (simp add: lookup_row_def)
qed

lemma lookup_row_present: "d \<in> date ` set g \<Longrightarrow> lookup_row g d \<in> set g"
  by (auto simp: lookup_row_def find_None_iff find_Some_iff split: option.splits)

lemma lookup_row_unique:
  "distinct (map date g) \<Longrightarrow> x \<in> set g \<Longrightarrow> lookup_row g (date x) = x"
  using lookup_row_present[of "date x" g] lookup_row_date[of g "date x"]
  by (metis distinct_map image_eqI inj_onD)

lemma index_min_Min: "g \<noteq> [] \<Longrightarrow> index_min (map date g) = Some (Min (date ` set g))"
  by (cases g) (simp_all add: Min.set_eq_fold[symmetric])

lemma reindex_eq:
  "g \<noteq> [] \<Longrightarrow> distinct (map date g) \<Longrightarrow>
     reindex now g delta = Inr (reindexed g (date_of now + delta))"
  by (simp add: reindex_def date_range_def index_min_Min df_reindex_def reindexed_def)

lemma reindex_dup:
  "g \<noteq> [] \<Longrightarrow> \<not> distinct (map date g) \<Longrightarrow> reindex now g delta = Inl DuplicateLabels"
  by (simp add: reindex_def date_range_def index_min_Min df_reindex_def)

lemma map_date_lookup: "map date (map (lookup_row g) ds) = ds"
  by (induction ds) simp_all

lemma map_date_reindexed:
  "map date (reindexed g e) = [Min (date ` set g) .. e]"
  unfolding reindexed_def by (simp only: map_date_ffill map_date_lookup)

lemma length_reindexed: "length (reindexed g e) = length [Min (date ` set g) .. e]"
  by (simp add: reindexed_def)

lemma reindexed_region:
  assumes "g \<noteq> []" and "\<And>x. x \<in> set g \<Longrightarrow> region x = Some r"
  shows "\<forall>y \<in> set (reindexed g e). region y = Some r"
proof (cases "Min (date ` set g) \<le> e")
  case False
  then show ?thesis by (simp add: reindexed_def ffill_def)
next
  case True
  let ?s = "Min (date ` set g)"
  have "?s \<in> date ` set g" using assms(1) by (intro Min_in) auto
  then have first: "region (lookup_row g ?s) = Some r"
    using lookup_row_present assms(2) by blast
  have rest: "\<And>x. x \<in> set (map (lookup_row g) [?s .. e]) \<Longrightarrow> region x = None \<or> region x = Some r"
  proof -
    fix x assume "x \<in> set (map (lookup_row g) [?s .. e])"
    then obtain d where x: "x = lookup_row g d" by auto
    show "region x = None \<or> region x = Some r"
      using lookup_row_present[of d g] lookup_row_absent[of d g] assms(2) x by (cases "d \<in> date ` set g") auto
  qed
  have ne: "map (lookup_row g) [?s .. e] \<noteq> []" using True by (simp add: upto_rec1)
  have hd: "hd (map (lookup_row g) [?s .. e]) = lookup_row g ?s"
    using True by (simp add: upto_rec1)
  show ?thesis unfolding reindexed_def ffill_def
    by (rule ffill_from_region[where r = r]) (use rest ne hd first in auto)
qed

subsection \<open>Grouping\<close>

lemma group_of_empty_iff: "group_of r df = [] \<longleftrightarrow> Some r \<notin> region ` set df"
proof -
  have "group_of r df = [] \<longleftrightarrow> (\<forall>x \<in> set df. region x \<noteq> Some r)"
    by (simp add: group_of_def filter_empty_conv)
  also have "\<dots> \<longleftrightarrow> Some r \<notin> region ` set df" by force
  finally show ?thesis .
qed

lemma set_map_filter_region: "set (List.map_filter region df) = {r. Some r \<in> region ` set df}"
proof -
  have "\<And>r. r \<in> set (List.map_filter region df) \<longleftrightarrow> (\<exists>x \<in> set df. region x = Some r)"
    by (induction df) (auto simp: List.map_filter_simps split: option.splits)
  then show ?thesis by (auto simp: image_iff) metis
qed

lemma set_row_keys: "set (row_keys df) = {r. group_of r df \<noteq> []}"
  by (simp add: row_keys_def group_keys_def set_map_filter_region group_of_empty_iff)

lemma distinct_group_keys [simp]: "distinct (group_keys rs)"
  by (simp add: group_keys_def)

lemma set_group_keys [simp]: "set (group_keys rs) = set rs"
  by (simp add: group_keys_def)

lemma group_of_region: "x \<in> set (group_of r df) \<Longrightarrow> region x = Some r"
  by (simp add: group_of_def)

lemma groupby_reindex_groups:
  assumes "groupby_reindex now delta df = Inr G"
  shows "group_of r G =
           (if group_of r df = [] then [] else reindexed (group_of r df) (date_of now + delta))"
    and "distinct (map date (group_of r df))"
    and "x \<in> set G \<Longrightarrow> region x \<noteq> None"
proof -
  let ?f = "\<lambda>r. reindex now (group_of r df) delta"
  let ?B = "\<lambda>r. reindexed (group_of r df) (date_of now + delta)"
  obtain bs where seq: "sequence (map ?f (row_keys df)) = Inr bs" and G: "G = concat bs"
    using assms by (auto simp: groupby_reindex_def split: sum.splits)
  have ok: "\<And>k. k \<in> set (row_keys df) \<Longrightarrow> ?f k = Inr (projr (?f k))"
    using sequence_blocks(2)[OF seq] by blast
  have dist: "\<And>k. k \<in> set (row_keys df) \<Longrightarrow> distinct (map date (group_of k df))"
  proof (rule ccontr)
    fix k assume k: "k \<in> set (row_keys df)" and nd: "\<not> distinct (map date (group_of k df))"
    have "group_of k df \<noteq> []" using k by (simp add: set_row_keys)
    then have "?f k = Inl DuplicateLabels" using nd by (rule reindex_dup)
    then show False using ok[OF k] by simp
  qed
  have blocks: "\<And>k. k \<in> set (row_keys df) \<Longrightarrow> projr (?f k) = ?B k"
    using dist by (simp add: set_row_keys reindex_eq)
  have "bs = map (\<lambda>k. projr (?f k)) (row_keys df)"
    by (rule sequence_blocks(1)[OF seq])
  also have "\<dots> = map ?B (row_keys df)"
    by (rule map_cong[OF refl]) (rule blocks)
  finally have bs: "bs = map ?B (row_keys df)" .
  have reg: "region x = Some k" if k: "k \<in> set (row_keys df)" and x: "x \<in> set (?B k)" for k x
  proof -
    have ne: "group_of k df \<noteq> []" using k by (simp add: set_row_keys)
    have "\<forall>y \<in> set (?B k). region y = Some k"
      by (rule reindexed_region[OF ne]) (rule group_of_region)
    then show ?thesis using x by blast
  qed
  have dk: "distinct (row_keys df)" by (simp add: row_keys_def)
  have "group_of r (concat (map ?B (row_keys df))) = (if r \<in> set (row_keys df) then ?B r else [])"
    using dk reg by (rule group_of_concat)
  then have "group_of r G = (if r \<in> set (row_keys df) then ?B r else [])"
    by (simp only: G bs)
  then show "group_of r G =
           (if group_of r df = [] then [] else reindexed (group_of r df) (date_of now + delta))"
    by (simp add: set_row_keys)
  show "distinct (map date (group_of r df))"
    using dist[of r] by (cases "group_of r df = []") (auto simp: set_row_keys)
  show "region x \<noteq> None" if "x \<in> set G"
  proof -
    from that obtain k where "k \<in> set (row_keys df)" "x \<in> set (?B k)"
      unfolding G bs by auto
    then show ?thesis using reg by simp
  qed
qed

lemma groupby_reindex_ok:
  assumes "\<And>r. distinct (map date (group_of r df))"
  shows "\<exists>G. groupby_reindex now delta df = Inr G"
proof -
  have "\<And>k. k \<in> set (row_keys df) \<Longrightarrow>
          reindex now (group_of k df) delta = Inr (reindexed (group_of k df) (date_of now + delta))"
    using assms by (simp add: set_row_keys reindex_eq)
  then have "sequence (map (\<lambda>r. reindex now (group_of r df) delta) (row_keys df))
               = Inr (map (\<lambda>k. reindexed (group_of k df) (date_of now + delta)) (row_keys df))"
    by (rule sequence_all_Inr)
  then show ?thesis by (simp add: groupby_reindex_def)
qed


subsection \<open>Shifting and rolling inside one group\<close>

lemma length_shift [simp]: "length (shift i xs) = length xs"
  by (simp add: shift_def)

lemma shift_nth:
  "p < length xs \<Longrightarrow> shift i xs ! p = (if p < i then None else xs ! (p - i))"
  by (auto simp: shift_def nth_append)

lemma length_rolling [simp]: "length (rolling w agg xs) = length xs"
  by (simp add: rolling_def)

lemma length_group_transform [simp]: "length (group_transform f col df) = length df"
  by (simp add: group_transform_def)

lemma group_transform_nth:
  "k < length df \<Longrightarrow>
     group_transform f col df ! k =
       (case region (df ! k) of
          None \<Rightarrow> None
        | Some r \<Rightarrow> f (map col (group_of r df)) ! length (group_of r (take k df)))"
  by (simp add: group_transform_def split: option.splits)

lemma length_add_features [simp]: "length (add_features df) = length df"
  by (simp add: add_features_def)

lemma add_features_row:
  assumes "k < length df"
  shows "date (add_features df ! k) = date (df ! k)"
    and "region (add_features df ! k) = region (df ! k)"
    and "mag (add_features df ! k) = mag (df ! k)"
    and "depth (add_features df ! k) = depth (df ! k)"
    and "latitude (add_features df ! k) = latitude (df ! k)"
    and "longitude (add_features df ! k) = longitude (df ! k)"
  using assms by (simp_all add: add_features_def frow_of_def)

lemma add_features_cols:
  "map date (add_features df) = map date df"
  "map region (add_features df) = map region df"
  "map mag (add_features df) = map mag df"
  "map depth (add_features df) = map depth df"
  "map latitude (add_features df) = map latitude df"
  "map longitude (add_features df) = map longitude df"
  by (rule nth_equalityI; simp add: add_features_row)+


lemma frow_of_row [simp]:
  "date (frow_of x c) = date x" "region (frow_of x c) = region x"
  "mag (frow_of x c) = mag x" "depth (frow_of x c) = depth x"
  "latitude (frow_of x c) = latitude x" "longitude (frow_of x c) = longitude x"
  by (simp_all add: frow_of_def)

lemma group_of_add_features:
  "group_of r (add_features G) = group_features (group_of r G)"
proof -
  let ?P = "\<lambda>x::row. region x = Some r"
  let ?K = "filter (\<lambda>k. ?P (G ! k)) [0 ..< length G]"
  let ?g = "group_of r G"
  let ?pos = "\<lambda>k. length (filter ?P (take k G))"
  let ?F = "\<lambda>k. frow_of (G ! k) (\<lambda>f col. group_transform f col G ! k)"
  let ?H = "\<lambda>p. frow_of (?g ! p) (\<lambda>f col. f (map col ?g) ! p)"
  have "group_of r (add_features G) = map ?F (filter (\<lambda>k. region (?F k) = Some r) [0 ..< length G])"
    by (simp add: add_features_def group_of_def filter_map comp_def)
  also have "\<dots> = map ?F ?K" by simp
  also have "\<dots> = map (\<lambda>k. ?H (?pos k)) ?K"
  proof (rule map_cong[OF refl])
    fix k assume "k \<in> set ?K"
    then have k: "k < length G" and rk: "region (G ! k) = Some r" by auto
    have row: "?g ! ?pos k = G ! k"
      unfolding group_of_def using k rk by (rule nth_filter_take(1))
    have cell: "(\<lambda>f col. group_transform f col G ! k) = (\<lambda>f col. f (map col ?g) ! ?pos k)"
      by (intro ext) (simp add: group_transform_nth[OF k] rk group_of_def)
    show "?F k = ?H (?pos k)" by (simp only: row cell)
  qed
  also have "\<dots> = map ?H (map ?pos ?K)" by (simp add: comp_def)
  also have "map ?pos ?K = [0 ..< length ?g]"
    unfolding group_of_def by (rule pos_enum)
  finally show ?thesis by (simp add: group_features_def)
qed

lemma length_group_features [simp]: "length (group_features g) = length g"
  by (simp add: group_features_def)

lemma group_features_row:
  assumes "p < length g"
  shows "date (group_features g ! p) = date (g ! p)"
    and "region (group_features g ! p) = region (g ! p)"
    and "mag (group_features g ! p) = mag (g ! p)"
    and "depth (group_features g ! p) = depth (g ! p)"
    and "latitude (group_features g ! p) = latitude (g ! p)"
    and "longitude (group_features g ! p) = longitude (g ! p)"
  using assms by (simp_all add: group_features_def)

lemma lags_nth: "i \<in> set lags \<Longrightarrow> lags ! (i - START_LAG) = i \<and> i - START_LAG < length lags"
  by (auto simp: lags_def START_LAG_def END_LAG_def)

lemma set_lags: "set lags = {3 .. 10}"
  by (auto simp: lags_def START_LAG_def END_LAG_def)

lemma group_features_lag:
  assumes "p < length g" and "i \<in> set lags"
  shows "mag_lag_at (group_features g ! p) i = (if p < i then None else mag (g ! (p - i)))"
    and "depth_lag_at (group_features g ! p) i = (if p < i then None else depth (g ! (p - i)))"
proof -
  from lags_nth[OF assms(2)] have l: "lags ! (i - START_LAG) = i" "i - START_LAG < length lags"
    by simp_all
  have "mag_lag_at (group_features g ! p) i = shift i (map mag g) ! p"
    using assms(1) l by (simp add: mag_lag_at_def group_features_def frow_of_def)
  then show "mag_lag_at (group_features g ! p) i = (if p < i then None else mag (g ! (p - i)))"
    using assms(1) by (simp add: shift_nth)
  have "depth_lag_at (group_features g ! p) i = shift i (map depth g) ! p"
    using assms(1) l by (simp add: depth_lag_at_def group_features_def frow_of_def)
  then show "depth_lag_at (group_features g ! p) i = (if p < i then None else depth (g ! (p - i)))"
    using assms(1) by (simp add: shift_nth)
qed

lemma group_features_rolling_mean_3:
  assumes "p < length g"
  shows "mag_rolling_mean_3 (group_features g ! p) = rolling START_LAG window_mean (map mag g) ! p"
  using assms by (simp add: group_features_def frow_of_def)


subsection \<open>The resampled table\<close>

lemma map_insort_key_comp:
  "map g (insort_key (\<lambda>x. f (g x)) x xs) = insort_key f (g x) (map g xs)"
  by (induction xs) auto

lemma map_sort_key_comp:
  "map g (sort_key (\<lambda>x. f (g x)) xs) = sort_key f (map g xs)"
  by (induction xs) (simp_all add: map_insort_key_comp)

lemma filter_zip_canon:
  "map snd (filter (\<lambda>x. fst x = r) (zip (map c xs) xs)) = filter (\<lambda>e. c e = r) xs"
  by (induction xs) auto

lemma table_events:
  "map snd (filter (\<lambda>x. fst x = r)
        (sort_key (\<lambda>x. time (snd x)) (zip (map (\<lambda>e. canonical_region (place e)) df0) df0)))
     = region_events r df0"
proof -
  let ?z = "zip (map (\<lambda>e. canonical_region (place e)) df0) df0"
  have "filter (\<lambda>x. fst x = r) (sort_key (\<lambda>x. time (snd x)) ?z)
          = sort_key (\<lambda>x. time (snd x)) (filter (\<lambda>x. fst x = r) ?z)"
    by (rule filter_sort)
  then have "map snd (filter (\<lambda>x. fst x = r) (sort_key (\<lambda>x. time (snd x)) ?z))
          = map snd (sort_key (\<lambda>x. time (snd x)) (filter (\<lambda>x. fst x = r) ?z))"
    by (rule arg_cong)
  also have "\<dots> = sort_key time (map snd (filter (\<lambda>x. fst x = r) ?z))"
    by (rule map_sort_key_comp[of snd time])
  also have "\<dots> = sort_key time (filter (\<lambda>e. canonical_region (place e) = r) df0)"
    by (rule arg_cong[OF filter_zip_canon])
  finally show ?thesis unfolding region_events_def .
qed

lemma region_events_empty_iff:
  "region_events r df0 = [] \<longleftrightarrow> (\<forall>e \<in> set df0. canonical_region (place e) \<noteq> r)"
proof -
  have "region_events r df0 = [] \<longleftrightarrow> filter (\<lambda>e. canonical_region (place e) = r) df0 = []"
    unfolding region_events_def
    by (cases "filter (\<lambda>e. canonical_region (place e) = r) df0") simp_all
  then show ?thesis by (simp add: filter_empty_conv)
qed

lemma set_region_events:
  "set (region_events r df0) = {e \<in> set df0. canonical_region (place e) = r}"
  by (simp add: region_events_def)

lemma sorted_region_events: "sorted (map time (region_events r df0))"
  by (simp add: region_events_def)

lemma date_of_mono: "a \<le> b \<Longrightarrow> date_of a \<le> date_of b"
  by (simp add: date_of_def zdiv_mono1)

lemma sorted_hd_le:
  assumes "sorted (map f xs)" and "x \<in> set xs"
  shows "f (hd xs) \<le> f x"
  using assms by (cases xs) auto

lemma sorted_le_last:
  assumes "sorted (map f xs)" and "x \<in> set xs"
  shows "f x \<le> f (last xs)"
  using assms
proof (induction xs)
  case Nil then show ?case by simp
next
  case (Cons a xs)
  then show ?case by (cases "xs = []") auto
qed

lemma first_day_hd:
  assumes "region_events r df0 \<noteq> []"
  shows "date_of (time (hd (region_events r df0))) = first_day r df0"
proof -
  let ?evs = "region_events r df0"
  let ?D = "set (map (\<lambda>e. date_of (time e)) (filter (\<lambda>e. canonical_region (place e) = r) df0))"
  have D: "?D = (\<lambda>e. date_of (time e)) ` set ?evs"
    by (simp add: region_events_def)
  have "Min ?D = date_of (time (hd ?evs))"
  proof (rule Min_eqI)
    show "finite ?D" by simp
    show "date_of (time (hd ?evs)) \<in> ?D"
      unfolding D using assms by (intro imageI hd_in_set)
    fix y assume "y \<in> ?D"
    then obtain e where e: "e \<in> set ?evs" "y = date_of (time e)" unfolding D by auto
    have "time (hd ?evs) \<le> time e"
      using sorted_region_events e(1) by (rule sorted_hd_le)
    then show "date_of (time (hd ?evs)) \<le> y" using e(2) by (simp add: date_of_mono)
  qed
  then show ?thesis by (simp add: first_day_def)
qed

lemma map_date_daily:
  "map date (daily r df0)
     = [date_of (time (hd (region_events r df0))) .. date_of (time (last (region_events r df0)))]"
proof -
  have "\<And>ds. map date (map (resample_day r (region_events r df0)) ds) = ds"
    by (induct_tac ds) (simp_all add: resample_day_def Let_def)
  then show ?thesis by (simp only: daily_def resample_group_def)
qed

lemma daily_region: "x \<in> set (daily r df0) \<Longrightarrow> region x = Some r"
  by (auto simp: daily_def resample_group_def resample_day_def Let_def)

lemma daily_nonempty:
  assumes "region_events r df0 \<noteq> []"
  shows "daily r df0 \<noteq> []" and "Min (date ` set (daily r df0)) = first_day r df0"
    and "distinct (map date (daily r df0))"
proof -
  let ?evs = "region_events r df0"
  let ?lo = "date_of (time (hd ?evs))" and ?hi = "date_of (time (last ?evs))"
  have "time (hd ?evs) \<le> time (last ?evs)"
    using sorted_region_events last_in_set[OF assms] by (rule sorted_hd_le)
  then have le: "?lo \<le> ?hi" by (rule date_of_mono)
  have dates: "map date (daily r df0) = [?lo .. ?hi]" by (rule map_date_daily)
  then have "length (daily r df0) = length [?lo .. ?hi]" by (metis length_map)
  then show "daily r df0 \<noteq> []" using le by auto
  have "date ` set (daily r df0) = set [?lo .. ?hi]" using dates by (metis set_map)
  then have "date ` set (daily r df0) = {?lo .. ?hi}" by simp
  then have "Min (date ` set (daily r df0)) = ?lo" using le by (intro Min_eqI) auto
  then show "Min (date ` set (daily r df0)) = first_day r df0"
    using first_day_hd[OF assms] by simp
  show "distinct (map date (daily r df0))" by (simp only: dates distinct_upto)
qed

lemma group_of_resample_daily:
  "group_of r (resample_daily
       (sort_key (\<lambda>x. time (snd x)) (zip (map (\<lambda>e. canonical_region (place e)) df0) df0)))
     = (if region_events r df0 = [] then [] else daily r df0)"
proof -
  let ?tbl = "sort_key (\<lambda>x. time (snd x)) (zip (map (\<lambda>e. canonical_region (place e)) df0) df0)"
  let ?B = "\<lambda>k. resample_group k (map snd (filter (\<lambda>x. fst x = k) ?tbl))"
  have B: "?B = (\<lambda>k. daily k df0)"
    by (intro ext) (simp only: table_events daily_def)
  have mz: "map fst (zip (map (\<lambda>e. canonical_region (place e)) df0) df0)
              = map (\<lambda>e. canonical_region (place e)) df0"
    by (rule map_fst_zip) simp
  have "set (map fst ?tbl) = set (map fst (zip (map (\<lambda>e. canonical_region (place e)) df0) df0))"
    by (simp only: set_map set_sort)
  also have "\<dots> = set (map (\<lambda>e. canonical_region (place e)) df0)"
    by (simp only: mz)
  finally have "set (map fst ?tbl) = (\<lambda>e. canonical_region (place e)) ` set df0"
    by (simp only: set_map)
  then have keys: "r \<in> set (group_keys (map fst ?tbl)) \<longleftrightarrow> region_events r df0 \<noteq> []"
    unfolding set_group_keys region_events_empty_iff by (simp add: image_iff) metis
  have "group_of r (concat (map (\<lambda>k. daily k df0) (group_keys (map fst ?tbl))))
          = (if r \<in> set (group_keys (map fst ?tbl)) then daily r df0 else [])"
    by (rule group_of_concat) (simp_all add: daily_region)
  then have "group_of r (concat (map ?B (group_keys (map fst ?tbl))))
          = (if region_events r df0 = [] then [] else daily r df0)"
    using keys by (cases "region_events r df0 = []") (simp_all only: B if_True if_False simp_thms)
  then show ?thesis by (simp only: resample_daily_def)
qed


subsection \<open>The dense grid of \<open>preprocess_data\<close>\<close>

lemma region_column_Inr:
  "region_column df0 = Inr rs \<Longrightarrow> rs = map (\<lambda>e. canonical_region (place e)) df0"
  by (auto simp: region_column_def split: if_splits)

lemma group_of_filter_isin:
  "group_of r (filter (isin wl) df) = (if r \<in> wl then group_of r df else [])"
proof -
  have "\<And>x. (isin wl x \<and> region x = Some r) = (r \<in> wl \<and> region x = Some r)"
    by (auto simp: isin_def split: option.splits)
  then show ?thesis by (simp add: group_of_def conj_commute)
qed

lemma group_of_idem:
  "(\<And>x. x \<in> set g \<Longrightarrow> region x = Some r) \<Longrightarrow> group_of r g = g"
  by (simp add: group_of_def)

lemma group_of_other:
  "(\<And>x. x \<in> set g \<Longrightarrow> region x = Some r) \<Longrightarrow> r' \<noteq> r \<Longrightarrow> group_of r' g = []"
  by (auto simp: group_of_def filter_empty_conv)

lemma dense_block_shape:
  assumes "region_events r df0 \<noteq> []"
  shows "map date (dense_block now r df0) = [first_day r df0 .. date_of now]"
    and "\<And>x. x \<in> set (dense_block now r df0) \<Longrightarrow> region x = Some r"
proof -
  show "map date (dense_block now r df0) = [first_day r df0 .. date_of now]"
    by (simp only: dense_block_def map_date_reindexed daily_nonempty(2)[OF assms])
  have "\<forall>y \<in> set (reindexed (daily r df0) (date_of now)). region y = Some r"
    by (rule reindexed_region[OF daily_nonempty(1)[OF assms]]) (rule daily_region)
  then show "\<And>x. x \<in> set (dense_block now r df0) \<Longrightarrow> region x = Some r"
    by (simp only: dense_block_def)
qed

lemma group_of_dense_table:
  "group_of r (dense_table df0) = (if region_events r df0 = [] then [] else daily r df0)"
  unfolding dense_table_def by (rule group_of_resample_daily)

lemma preprocess_data_unfold:
  "preprocess_data now recent df0 target =
     (if \<forall>e \<in> set df0. split_second (place e) = None then Inl KeyError
      else (case target of
              None \<Rightarrow>
                (case get_regions recent of
                   Inl e \<Rightarrow> Inl e
                 | Inr regions \<Rightarrow> groupby_reindex now 0 (filter (isin regions) (dense_table df0)))
            | Some r \<Rightarrow>
                (case date_range (index_min (map date (group_of r (dense_table df0)))) (date_of now) of
                   Inl e \<Rightarrow> Inl e
                 | Inr days \<Rightarrow>
                     (case df_reindex (group_of r (dense_table df0)) days of
                        Inl e \<Rightarrow> Inl e
                      | Inr g \<Rightarrow> Inr (ffill g)))))"
  unfolding dense_table_def
  by (cases target) (simp_all add: preprocess_data_def region_column_def Let_def)

lemma reindex_inline:
  "(case date_range (index_min (map date g)) e of
      Inl err \<Rightarrow> Inl err
    | Inr days \<Rightarrow> (case df_reindex g days of Inl err \<Rightarrow> Inl err | Inr g' \<Rightarrow> Inr (ffill g')))
   = (if g = [] then Inl NaTRange
      else if \<not> distinct (map date g) then Inl DuplicateLabels
      else Inr (reindexed g e))"
  by (cases "g = []") (simp_all add: date_range_def index_min_Min df_reindex_def reindexed_def)

lemma preprocess_data_one:
  "preprocess_data now recent df0 (Some r) =
     (if \<forall>e \<in> set df0. split_second (place e) = None then Inl KeyError
      else if region_events r df0 = [] then Inl NaTRange
      else Inr (dense_block now r df0))"
  unfolding preprocess_data_unfold option.case reindex_inline
  by (simp add: group_of_dense_table daily_nonempty dense_block_def)

lemma preprocess_data_all:
  assumes "preprocess_data now recent df0 None = Inr G0"
  shows "\<exists>wl. get_regions recent = Inr wl
           \<and> (\<forall>r. group_of r G0 =
                  (if r \<in> wl \<and> region_events r df0 \<noteq> [] then dense_block now r df0 else []))"
    and "\<And>x. x \<in> set G0 \<Longrightarrow> region x \<noteq> None"
proof -
  from assms obtain wl where wl: "get_regions recent = Inr wl"
    and gr: "groupby_reindex now 0 (filter (isin wl) (dense_table df0)) = Inr G0"
    by (auto simp: preprocess_data_unfold split: if_splits sum.splits)
  have "group_of r G0 = (if r \<in> wl \<and> region_events r df0 \<noteq> [] then dense_block now r df0 else [])"
    for r
    using groupby_reindex_groups(1)[OF gr, of r]
    by (simp add: group_of_filter_isin group_of_dense_table dense_block_def daily_nonempty(1))
  then show "\<exists>wl. get_regions recent = Inr wl
           \<and> (\<forall>r. group_of r G0 =
                  (if r \<in> wl \<and> region_events r df0 \<noteq> [] then dense_block now r df0 else []))"
    using wl by blast
  show "\<And>x. x \<in> set G0 \<Longrightarrow> region x \<noteq> None"
    by (rule groupby_reindex_groups(3)[OF gr])
qed

lemma preprocess_data_all_ok:
  assumes "\<not> (\<forall>e \<in> set df0. split_second (place e) = None)" and "get_regions recent = Inr wl"
  shows "\<exists>G0. preprocess_data now recent df0 None = Inr G0"
proof -
  have "distinct (map date (group_of r (filter (isin wl) (dense_table df0))))" for r
    by (cases "region_events r df0 = []")
       (simp_all add: group_of_filter_isin group_of_dense_table daily_nonempty(3))
  then have "\<exists>G. groupby_reindex now 0 (filter (isin wl) (dense_table df0)) = Inr G"
    by (rule groupby_reindex_ok)
  then show ?thesis using assms by (simp add: preprocess_data_unfold)
qed


subsection \<open>The extended grid\<close>

lemma feature_table_grid:
  "feature_table t1 t2 events target =
     (case extended_grid t1 t2 events target of
        Inl e \<Rightarrow> Inl e
      | Inr G \<Rightarrow> Inr (add_features G))"
  by (simp add: feature_table_def extended_grid_def create_features_def split: sum.splits)

lemma extend_grid_one:
  "extend_grid now recent df (Some r) =
     (if df = [] then Inl NaTRange
      else if \<not> distinct (map date df) then Inl DuplicateLabels
      else Inr (ffill_region (map (lookup_row df) [Min (date ` set df) .. date_of now + 3])))"
  by (cases "df = []") (simp_all add: extend_grid_def date_range_def index_min_Min df_reindex_def)

lemma extend_grid_all:
  assumes "extend_grid now recent df None = Inr G"
  shows "\<exists>wl. get_regions recent = Inr wl
           \<and> (\<forall>r. group_of r G =
                  (if r \<in> wl \<and> group_of r df \<noteq> []
                   then reindexed (group_of r df) (date_of now + 3) else []))"
    and "\<And>x. x \<in> set G \<Longrightarrow> region x \<noteq> None"
proof -
  from assms obtain wl where wl: "get_regions recent = Inr wl"
    and gr: "groupby_reindex now 3 (filter (isin wl) df) = Inr G"
    by (auto simp: extend_grid_def Let_def split: sum.splits if_splits)
  have "group_of r G = (if r \<in> wl \<and> group_of r df \<noteq> []
                        then reindexed (group_of r df) (date_of now + 3) else [])" for r
    using groupby_reindex_groups(1)[OF gr, of r] by (simp add: group_of_filter_isin)
  then show "\<exists>wl. get_regions recent = Inr wl
           \<and> (\<forall>r. group_of r G =
                  (if r \<in> wl \<and> group_of r df \<noteq> []
                   then reindexed (group_of r df) (date_of now + 3) else []))"
    using wl by blast
  show "\<And>x. x \<in> set G \<Longrightarrow> region x \<noteq> None"
    by (rule groupby_reindex_groups(3)[OF gr])
qed

lemma create_features_no_region:
  assumes "get_regions recent = Inr wl" and "filter (isin wl) df = []"
  shows "create_features now recent df None = Inl AttributeError"
  using assms by (simp add: create_features_def extend_grid_def row_keys_def group_keys_def
      List.map_filter_simps)

lemma offlist_raises:
  "preprocess_data demo_now offlist_events offlist_events None = Inr []"
  "feature_table demo_now demo_now offlist_events None = Inl AttributeError"
proof -
  show "preprocess_data demo_now offlist_events offlist_events None = Inr []"
    by code_simp
  have "extended_grid demo_now demo_now offlist_events None = Inl AttributeError"
    by code_simp
  then show "feature_table demo_now demo_now offlist_events None = Inl AttributeError"
    by (simp add: feature_table_grid)
qed

lemma dense_block_Min:
  assumes "region_events r df0 \<noteq> []" and "dense_block now r df0 \<noteq> []"
  shows "Min (date ` set (dense_block now r df0)) = first_day r df0"
    and "first_day r df0 \<le> date_of now"
    and "distinct (map date (dense_block now r df0))"
proof -
  let ?B = "dense_block now r df0"
  have dates: "map date ?B = [first_day r df0 .. date_of now]"
    by (rule dense_block_shape(1)[OF assms(1)])
  then have "length ?B = length [first_day r df0 .. date_of now]" by (metis length_map)
  then show le: "first_day r df0 \<le> date_of now" using assms(2) by (cases "first_day r df0 \<le> date_of now") auto
  have "date ` set ?B = set [first_day r df0 .. date_of now]" using dates by (metis set_map)
  then have "date ` set ?B = {first_day r df0 .. date_of now}" by simp
  then show "Min (date ` set ?B) = first_day r df0" using le by (intro Min_eqI) auto
  show "distinct (map date ?B)" by (simp only: dates distinct_upto)
qed

lemma dense_block_empty_iff:
  assumes "region_events r df0 \<noteq> []"
  shows "dense_block now r df0 = [] \<longleftrightarrow> date_of now < first_day r df0"
proof -
  have "map date (dense_block now r df0) = [first_day r df0 .. date_of now]"
    by (rule dense_block_shape(1)[OF assms])
  then have "length (dense_block now r df0) = length [first_day r df0 .. date_of now]"
    by (metis length_map)
  then show ?thesis by (cases "first_day r df0 \<le> date_of now") auto
qed

lemma extended_block_shape:
  assumes "region_events r df0 \<noteq> []" and "first_day r df0 \<le> date_of t1"
  shows "map date (extended_block t1 t2 target r df0) = [first_day r df0 .. date_of t2 + 3]"
    and "\<And>x. x \<in> set (extended_block t1 t2 target r df0) \<Longrightarrow> region x = Some r"
proof -
  let ?B = "dense_block t1 r df0"
  let ?X = "map (lookup_row ?B) [first_day r df0 .. date_of t2 + 3]"
  show "map date (extended_block t1 t2 target r df0) = [first_day r df0 .. date_of t2 + 3]"
    by (cases target) (simp_all only: extended_block_def Let_def option.case map_date_ffill map_date_lookup)
  have ne: "?B \<noteq> []" using assms by (simp add: dense_block_empty_iff)
  have reg: "\<And>x. x \<in> set ?B \<Longrightarrow> region x = Some r" by (rule dense_block_shape(2)[OF assms(1)])
  have "reindexed ?B (date_of t2 + 3) = ffill ?X"
    by (simp only: reindexed_def dense_block_Min(1)[OF assms(1) ne])
  then have a: "\<forall>y \<in> set (ffill ?X). region y = Some r"
    using reindexed_region[OF ne reg, of "date_of t2 + 3"] by simp
  have b: "\<forall>y \<in> set (ffill_region ?X). region y = Some r"
  proof (cases "first_day r df0 \<le> date_of t2 + 3")
    case False then show ?thesis by (simp add: ffill_region_def)
  next
    case True
    have "first_day r df0 \<in> date ` set ?B"
      using dense_block_Min(1)[OF assms(1) ne] ne Min_in[of "date ` set ?B"] by auto
    then have first: "region (lookup_row ?B (first_day r df0)) = Some r"
      using lookup_row_present reg by blast
    have rest: "\<And>x. x \<in> set ?X \<Longrightarrow> region x = None \<or> region x = Some r"
    proof -
      fix x assume "x \<in> set ?X"
      then obtain d where x: "x = lookup_row ?B d" by auto
      show "region x = None \<or> region x = Some r"
        using lookup_row_present[of d ?B] lookup_row_absent[of d ?B] reg x
        by (cases "d \<in> date ` set ?B") auto
    qed
    have hd: "?X \<noteq> [] \<and> region (hd ?X) = Some r" using True first by (simp add: upto_rec1)
    show ?thesis unfolding ffill_region_def
      by (rule ffill_from_region[where r = r]) (use rest hd in auto)
  qed
  show "\<And>x. x \<in> set (extended_block t1 t2 target r df0) \<Longrightarrow> region x = Some r"
    using a b by (cases target) (simp_all add: extended_block_def)
qed

lemma extended_grid_one:
  assumes "extended_grid t1 t2 events (Some r) = Inr G"
  shows "region_events r events \<noteq> []" and "first_day r events \<le> date_of t1"
    and "G = extended_block t1 t2 (Some r) r events"
proof -
  from assms obtain G0 where p: "preprocess_data t1 events events (Some r) = Inr G0"
    and e: "extend_grid t2 events G0 (Some r) = Inr G"
    by (auto simp: extended_grid_def split: sum.splits)
  from p show ev: "region_events r events \<noteq> []"
    by (auto simp: preprocess_data_one split: if_splits)
  from p have G0: "G0 = dense_block t1 r events"
    by (auto simp: preprocess_data_one split: if_splits)
  from e have ne: "G0 \<noteq> []" by (auto simp: extend_grid_one split: if_splits)
  then show "first_day r events \<le> date_of t1"
    using dense_block_Min(2)[OF ev] G0 by simp
  from e ne have "G = ffill_region (map (lookup_row G0) [Min (date ` set G0) .. date_of t2 + 3])"
    by (auto simp: extend_grid_one split: if_splits)
  then show "G = extended_block t1 t2 (Some r) r events"
    using dense_block_Min(1)[OF ev] ne G0 by (simp add: extended_block_def)
qed

lemma extended_grid_all:
  assumes "extended_grid t1 t2 events None = Inr G"
  shows "\<exists>wl. get_regions events = Inr wl
           \<and> (\<forall>r. group_of r G =
                  (if r \<in> wl \<and> region_events r events \<noteq> [] \<and> first_day r events \<le> date_of t1
                   then extended_block t1 t2 None r events else []))"
    and "\<And>x. x \<in> set G \<Longrightarrow> region x \<noteq> None"
proof -
  from assms obtain G0 where p: "preprocess_data t1 events events None = Inr G0"
    and e: "extend_grid t2 events G0 None = Inr G"
    by (auto simp: extended_grid_def split: sum.splits)
  from preprocess_data_all(1)[OF p] obtain wl where wl: "get_regions events = Inr wl"
    and g0: "\<And>r. group_of r G0 =
        (if r \<in> wl \<and> region_events r events \<noteq> [] then dense_block t1 r events else [])"
    by blast
  from extend_grid_all(1)[OF e] wl
  have g: "\<And>r. group_of r G =
        (if r \<in> wl \<and> group_of r G0 \<noteq> [] then reindexed (group_of r G0) (date_of t2 + 3) else [])"
    by simp
  have "group_of r G =
          (if r \<in> wl \<and> region_events r events \<noteq> [] \<and> first_day r events \<le> date_of t1
           then extended_block t1 t2 None r events else [])" for r
  proof (cases "r \<in> wl \<and> region_events r events \<noteq> []")
    case False
    then show ?thesis using g[of r] g0[of r] by auto
  next
    case True
    then have ev: "region_events r events \<noteq> []" and b: "group_of r G0 = dense_block t1 r events"
      using g0[of r] by simp_all
    show ?thesis
    proof (cases "first_day r events \<le> date_of t1")
      case False
      then have "dense_block t1 r events = []" using dense_block_empty_iff[OF ev] by simp
      then show ?thesis using g[of r] b False by simp
    next
      case le: True
      then have ne: "dense_block t1 r events \<noteq> []" using dense_block_empty_iff[OF ev] by simp
      have "reindexed (dense_block t1 r events) (date_of t2 + 3) = extended_block t1 t2 None r events"
        by (simp add: reindexed_def extended_block_def dense_block_Min(1)[OF ev ne])
      then show ?thesis using g[of r] b ne True le by simp
    qed
  qed
  then show "\<exists>wl. get_regions events = Inr wl
           \<and> (\<forall>r. group_of r G =
                  (if r \<in> wl \<and> region_events r events \<noteq> [] \<and> first_day r events \<le> date_of t1
                   then extended_block t1 t2 None r events else []))"
    using wl by blast
  show "\<And>x. x \<in> set G \<Longrightarrow> region x \<noteq> None"
    by (rule extend_grid_all(2)[OF e])
qed

text \<open>Both paths: the rows of a region in the extended grid.\<close>

lemma extended_grid_group:
  assumes "extended_grid t1 t2 events target = Inr G" and "group_of r G \<noteq> []"
  shows "region_events r events \<noteq> []" and "first_day r events \<le> date_of t1"
    and "group_of r G = extended_block t1 t2 target r events"
proof -
  have "region_events r events \<noteq> [] \<and> first_day r events \<le> date_of t1
          \<and> group_of r G = extended_block t1 t2 target r events"
  proof (cases target)
    case None
    from extended_grid_all(1)[OF assms(1)[unfolded None]] obtain wl where
      g: "\<And>r. group_of r G =
        (if r \<in> wl \<and> region_events r events \<noteq> [] \<and> first_day r events \<le> date_of t1
         then extended_block t1 t2 None r events else [])" by blast
    show ?thesis using g[of r] assms(2) None by (auto split: if_splits)
  next
    case (Some r0)
    note one = extended_grid_one[OF assms(1)[unfolded Some]]
    have reg: "\<And>x. x \<in> set G \<Longrightarrow> region x = Some r0"
      unfolding one(3) by (rule extended_block_shape(2)[OF one(1,2)])
    have "r = r0" using assms(2) group_of_other[of G r0 r] reg by blast
    then show ?thesis using one group_of_idem[of G r0] reg Some by simp
  qed
  then show "region_events r events \<noteq> []" and "first_day r events \<le> date_of t1"
    and "group_of r G = extended_block t1 t2 target r events" by simp_all
qed

lemma extended_grid_regions:
  assumes "extended_grid t1 t2 events target = Inr G" and "x \<in> set G"
  shows "region x \<noteq> None"
proof (cases target)
  case None
  then show ?thesis using extended_grid_all(2)[of t1 t2 events G x] assms by simp
next
  case (Some r0)
  note one = extended_grid_one[OF assms(1)[unfolded Some]]
  have "region x = Some r0"
    using assms(2) unfolding one(3) by (rule extended_block_shape(2)[OF one(1,2)])
  then show ?thesis by simp
qed


subsection \<open>Cells of the dense and the extended rows\<close>

lemma nth_lookup_rows:
  assumes "j < length [s .. e]"
  shows "map (lookup_row B) [s .. e] ! j = lookup_row B (s + int j)"
proof -
  have "s + int j \<le> e" using assms by (simp add: length_upto)
  then have "[s .. e] ! j = s + int j" by (rule nth_upto)
  then show ?thesis using assms by simp
qed

lemma dates_nth:
  assumes "map date B = [s .. m]" and "j < length B"
  shows "date (B ! j) = s + int j"
proof -
  have "j < length [s .. m]" using assms by (metis length_map)
  then have "s + int j \<le> m" by (simp add: length_upto)
  then have "[s .. m] ! j = s + int j" by (rule nth_upto)
  moreover have "map date B ! j = date (B ! j)" using assms(2) by simp
  ultimately show ?thesis using assms(1) by simp
qed

lemma lookup_dense_row:
  assumes "map date B = [s .. m]" and "s + int j \<le> m"
  shows "lookup_row B (s + int j) = B ! j" and "j < length B"
proof -
  have "length B = length [s .. m]" using assms(1) by (metis length_map)
  then show j: "j < length B" using assms(2) by (simp add: length_upto)
  have d: "distinct (map date B)" by (simp only: assms(1) distinct_upto)
  have "lookup_row B (date (B ! j)) = B ! j"
    using d nth_mem[OF j] by (rule lookup_row_unique)
  then show "lookup_row B (s + int j) = B ! j"
    using dates_nth[OF assms(1) j] by simp
qed

lemma lookup_beyond:
  assumes "map date B = [s .. m]" and "m < d"
  shows "lookup_row B d = nan_row d"
proof (rule lookup_row_absent)
  have "date ` set B = set [s .. m]" using assms(1) by (metis set_map)
  then show "d \<notin> date ` set B" using assms(2) by simp
qed

lemma ffill_carry:
  assumes c: "\<And>p x. c (fill_row p x) = orelse (c x) (c p)"
    and "j0 \<le> j" and "j < length X"
    and "\<And>j'. j0 < j' \<Longrightarrow> j' \<le> j \<Longrightarrow> c (X ! j') = None"
  shows "c (ffill X ! j) = c (ffill X ! j0)"
  using assms(2-)
proof (induction j)
  case 0 then show ?case by simp
next
  case (Suc j)
  show ?case
  proof (cases "j0 = Suc j")
    case True then show ?thesis by simp
  next
    case False
    then have le: "j0 \<le> j" using Suc.prems(1) by simp
    have ih: "c (ffill X ! j) = c (ffill X ! j0)"
      using le Suc.prems by (intro Suc.IH) simp_all
    have "ffill X ! Suc j = fill_row (ffill X ! j) (X ! Suc j)"
      using ffill_from_nth[OF Suc.prems(2), of fill_row "nan_row 0"] by (simp add: ffill_def)
    then have "c (ffill X ! Suc j) = orelse (c (X ! Suc j)) (c (ffill X ! j))" by (simp add: c)
    moreover have "c (X ! Suc j) = None" using le by (intro Suc.prems(3)) simp_all
    ultimately show ?thesis using ih by simp
  qed
qed

lemma ffill_defined:
  assumes c: "\<And>p x. c (fill_row p x) = orelse (c x) (c p)"
    and "j < length X" and "c (X ! j) \<noteq> None"
  shows "c (ffill X ! j) \<noteq> None"
proof -
  have "ffill X ! j = fill_row (if j = 0 then nan_row 0 else ffill X ! (j - 1)) (X ! j)"
    using ffill_from_nth[OF assms(2), of fill_row "nan_row 0"] by (simp add: ffill_def)
  then have "c (ffill X ! j) = orelse (c (X ! j)) (c (if j = 0 then nan_row 0 else ffill X ! (j - 1)))"
    by (simp only: c)
  then show ?thesis using assms(3) by (cases "c (X ! j)") simp_all
qed

lemma ffill_keeps:
  assumes c: "\<And>p x. c (fill_row p x) = orelse (c x) (c p)"
    and "j0 \<le> j" and "j < length X" and "c (X ! j0) \<noteq> None"
  shows "c (ffill X ! j) \<noteq> None"
  using assms(2-)
proof (induction j)
  case 0
  then show ?case using ffill_defined[OF c, of 0 X] by simp
next
  case (Suc j)
  show ?case
  proof (cases "j0 = Suc j")
    case True
    then show ?thesis using ffill_defined[OF c Suc.prems(2)] Suc.prems(3) by simp
  next
    case False
    then have "c (ffill X ! j) \<noteq> None" using Suc by simp
    moreover have "ffill X ! Suc j = fill_row (ffill X ! j) (X ! Suc j)"
      using ffill_from_nth[OF Suc.prems(2), of fill_row "nan_row 0"] by (simp add: ffill_def)
    then have "c (ffill X ! Suc j) = orelse (c (X ! Suc j)) (c (ffill X ! j))" by (simp add: c)
    ultimately show ?thesis by (cases "c (X ! Suc j)") simp_all
  qed
qed

lemma mean_defined: "v \<in> set xs \<Longrightarrow> v \<noteq> None \<Longrightarrow> mean xs \<noteq> None"
proof -
  assume "v \<in> set xs" "v \<noteq> None"
  then obtain a where "Some a \<in> set xs" by (cases v) auto
  then have "a \<in> set (List.map_filter id xs)"
    by (force simp: List.map_filter_def)
  then have "List.map_filter id xs \<noteq> []" by auto
  then show ?thesis by (simp add: Let_def)
qed

lemma daily_lookup:
  assumes ev: "region_events r df0 \<noteq> []" and e: "e \<in> set df0" "canonical_region (place e) = r"
  shows "lookup_row (daily r df0) (date_of (time e))
           = resample_day r (region_events r df0) (date_of (time e))"
    and "first_day r df0 \<le> date_of (time e)"
proof -
  let ?evs = "region_events r df0" and ?d = "date_of (time e)"
  have mem: "e \<in> set ?evs" using e by (simp add: set_region_events)
  have "time (hd ?evs) \<le> time e" using sorted_region_events mem by (rule sorted_hd_le)
  then have lo: "date_of (time (hd ?evs)) \<le> ?d" by (rule date_of_mono)
  have "time e \<le> time (last ?evs)" using sorted_region_events mem by (rule sorted_le_last)
  then have hi: "?d \<le> date_of (time (last ?evs))" by (rule date_of_mono)
  show "first_day r df0 \<le> ?d" using lo first_day_hd[OF ev] by simp
  have "?d \<in> set [date_of (time (hd ?evs)) .. date_of (time (last ?evs))]" using lo hi by simp
  then have "?d \<in> set (map date (daily r df0))" by (simp only: map_date_daily)
  then have "?d \<in> date ` set (daily r df0)" by simp
  then have "lookup_row (daily r df0) ?d \<in> set (daily r df0)" by (rule lookup_row_present)
  then obtain d' where "lookup_row (daily r df0) ?d = resample_day r ?evs d'"
    by (auto simp: daily_def resample_group_def)
  moreover from this have "d' = ?d"
    using lookup_row_date[of "daily r df0" ?d] by (simp add: resample_day_def Let_def)
  ultimately show "lookup_row (daily r df0) ?d = resample_day r ?evs ?d" by simp
qed

lemma dense_block_defined:
  fixes c :: "row \<Rightarrow> real option" and c' :: "event \<Rightarrow> real option"
  assumes c: "\<And>p x. c (fill_row p x) = orelse (c x) (c p)"
    and cr: "\<And>r evs d. c (resample_day r evs d) = mean (map c' (filter (\<lambda>e. date_of (time e) = d) evs))"
    and e: "e \<in> set df0" "canonical_region (place e) = r" "c' e \<noteq> None"
    and d: "date_of (time e) \<le> first_day r df0 + int j" "first_day r df0 + int j \<le> date_of now"
  shows "c (dense_block now r df0 ! j) \<noteq> None"
proof -
  let ?evs = "region_events r df0" and ?d = "date_of (time e)" and ?s = "first_day r df0"
  let ?X = "map (lookup_row (daily r df0)) [?s .. date_of now]"
  have ev: "?evs \<noteq> []" using e by (auto simp: region_events_empty_iff)
  note dl = daily_lookup[OF ev e(1,2)]
  define j0 where "j0 = nat (?d - ?s)"
  have j0: "?s + int j0 = ?d" using dl(2) by (simp add: j0_def)
  have le: "j0 \<le> j" using d(1) j0 by linarith
  have jlen: "j < length [?s .. date_of now]" using d(2) by (simp add: length_upto)
  then have j0len: "j0 < length [?s .. date_of now]" using le by simp
  have x0: "?X ! j0 = resample_day r ?evs ?d"
    using nth_lookup_rows[OF j0len, of "daily r df0"] j0 dl(1) by simp
  have "c' e \<in> set (map c' (filter (\<lambda>x. date_of (time x) = ?d) ?evs))"
    using e by (simp add: set_region_events)
  then have "mean (map c' (filter (\<lambda>x. date_of (time x) = ?d) ?evs)) \<noteq> None"
    using e(3) by (rule mean_defined)
  then have "c (resample_day r ?evs ?d) \<noteq> None" unfolding cr .
  then have "c (?X ! j0) \<noteq> None" unfolding x0 .
  then have "c (ffill ?X ! j) \<noteq> None"
    using ffill_keeps[OF c le, of ?X] jlen by simp
  then show ?thesis
    unfolding dense_block_def reindexed_def daily_nonempty(2)[OF ev] .
qed


lemma extended_rows_nth:
  assumes ev: "region_events r df0 \<noteq> []"
    and j: "j < length [first_day r df0 .. date_of t2 + 3]"
  shows "first_day r df0 + int j \<le> date_of t1 \<Longrightarrow>
           map (lookup_row (dense_block t1 r df0)) [first_day r df0 .. date_of t2 + 3] ! j
             = dense_block t1 r df0 ! j"
    and "date_of t1 < first_day r df0 + int j \<Longrightarrow>
           map (lookup_row (dense_block t1 r df0)) [first_day r df0 .. date_of t2 + 3] ! j
             = nan_row (first_day r df0 + int j)"
proof -
  note dates = dense_block_shape(1)[OF ev, of t1]
  show "map (lookup_row (dense_block t1 r df0)) [first_day r df0 .. date_of t2 + 3] ! j
             = dense_block t1 r df0 ! j" if "first_day r df0 + int j \<le> date_of t1"
    using nth_lookup_rows[OF j] lookup_dense_row(1)[OF dates that] by simp
  show "map (lookup_row (dense_block t1 r df0)) [first_day r df0 .. date_of t2 + 3] ! j
             = nan_row (first_day r df0 + int j)" if "date_of t1 < first_day r df0 + int j"
    using nth_lookup_rows[OF j] lookup_beyond[OF dates that] by simp
qed

lemma ffill_region_nth_col:
  assumes "\<And>p x. c (fill_region p x) = c x" and "j < length X"
  shows "c (ffill_region X ! j) = c (X ! j)"
  using ffill_from_nth[OF assms(2), of fill_region "nan_row 0"] by (simp add: ffill_region_def assms(1))

lemma length_extended_block:
  "length (extended_block t1 t2 target r df0) = length [first_day r df0 .. date_of t2 + 3]"
  by (cases target) (simp_all add: extended_block_def)

lemma extended_block_defined:
  fixes c :: "row \<Rightarrow> real option" and c' :: "event \<Rightarrow> real option"
  assumes c: "\<And>p x. c (fill_row p x) = orelse (c x) (c p)"
    and c2: "\<And>p x. c (fill_region p x) = c x"
    and cr: "\<And>r evs d. c (resample_day r evs d) = mean (map c' (filter (\<lambda>e. date_of (time e) = d) evs))"
    and e: "e \<in> set df0" "canonical_region (place e) = r" "c' e \<noteq> None"
    and d: "date_of (time e) \<le> first_day r df0 + int j" "first_day r df0 + int j \<le> date_of t1"
      "j < length (extended_block t1 t2 target r df0)"
  shows "c (extended_block t1 t2 target r df0 ! j) \<noteq> None"
proof -
  let ?B = "dense_block t1 r df0"
  let ?X = "map (lookup_row ?B) [first_day r df0 .. date_of t2 + 3]"
  have ev: "region_events r df0 \<noteq> []" using e by (auto simp: region_events_empty_iff)
  have j: "j < length [first_day r df0 .. date_of t2 + 3]"
    using d(3) by (simp only: length_extended_block)
  have "c (?B ! j) \<noteq> None"
    using c cr e d(1,2) by (rule dense_block_defined)
  then have x: "c (?X ! j) \<noteq> None"
    using extended_rows_nth(1)[OF ev j d(2)] by simp
  have jx: "j < length ?X" using j by simp
  show ?thesis
  proof (cases target)
    case None
    then show ?thesis using ffill_defined[OF c jx x] by (simp add: extended_block_def)
  next
    case (Some r0)
    then show ?thesis using ffill_region_nth_col[OF c2 jx] x by (simp add: extended_block_def)
  qed
qed

lemma extended_block_future_one:
  assumes ev: "region_events r df0 \<noteq> []"
    and c2: "\<And>p x. c (fill_region p x) = c x" and cn: "\<And>d. c (nan_row d) = None"
    and j: "j < length (extended_block t1 t2 (Some r0) r df0)"
    and d: "date_of t1 < first_day r df0 + int j"
  shows "c (extended_block t1 t2 (Some r0) r df0 ! j) = None"
proof -
  let ?X = "map (lookup_row (dense_block t1 r df0)) [first_day r df0 .. date_of t2 + 3]"
  have j': "j < length [first_day r df0 .. date_of t2 + 3]"
    using j by (simp only: length_extended_block)
  then have jx: "j < length ?X" by simp
  have "c (?X ! j) = None" using extended_rows_nth(2)[OF ev j' d] by (simp add: cn)
  then show ?thesis using ffill_region_nth_col[OF c2 jx] by (simp add: extended_block_def)
qed

lemma extended_block_future_all:
  assumes ev: "region_events r df0 \<noteq> []" and le: "first_day r df0 \<le> date_of t1"
    and c: "\<And>p x. c (fill_row p x) = orelse (c x) (c p)" and cn: "\<And>d. c (nan_row d) = None"
    and j: "j < length (extended_block t1 t2 None r df0)"
    and d: "date_of t1 < first_day r df0 + int j"
  shows "c (extended_block t1 t2 None r df0 ! j)
           = c (extended_block t1 t2 None r df0 ! nat (date_of t1 - first_day r df0))"
proof -
  let ?X = "map (lookup_row (dense_block t1 r df0)) [first_day r df0 .. date_of t2 + 3]"
  define j0 where "j0 = nat (date_of t1 - first_day r df0)"
  have j': "j < length [first_day r df0 .. date_of t2 + 3]"
    using j by (simp only: length_extended_block)
  then have jx: "j < length ?X" by simp
  have j0: "first_day r df0 + int j0 = date_of t1" using le by (simp add: j0_def)
  then have j0j: "j0 \<le> j" using d by linarith
  have nan: "c (?X ! j') = None" if "j0 < j'" "j' \<le> j" for j'
  proof -
    have "j' < length [first_day r df0 .. date_of t2 + 3]" using that(2) j' by simp
    moreover have "date_of t1 < first_day r df0 + int j'" using that(1) j0 by linarith
    ultimately show ?thesis using extended_rows_nth(2)[OF ev] by (simp add: cn)
  qed
  have "c (ffill ?X ! j) = c (ffill ?X ! j0)"
    using c j0j jx nan by (rule ffill_carry)
  then show ?thesis by (simp add: extended_block_def j0_def)
qed

subsection \<open>The example tables\<close>

lemma demo_grid_ok: "extended_grid demo_now demo_now demo_events None = Inr demo_grid"
  unfolding demo_grid_def by code_simp

lemma demo_table_ok: "feature_table demo_now demo_now demo_events None = Inr demo_table"
  by (simp add: feature_table_grid demo_grid_ok demo_table_def)

lemma demo_grid_cols:
  "map date demo_grid = [1, 2, 3, 4, 5, 6, 7, 0, 1, 2, 3, 4, 5, 6, 7]"
  "map region demo_grid =
     [Some ''Alaska'', Some ''Alaska'', Some ''Alaska'', Some ''Alaska'', Some ''Alaska'',
      Some ''Alaska'', Some ''Alaska'', Some ''California'', Some ''California'',
      Some ''California'', Some ''California'', Some ''California'', Some ''California'',
      Some ''California'', Some ''California'']"
  "map mag demo_grid =
     [Some 2, Some 2, Some 2, Some 2, Some 2, Some 2, Some 2,
      Some 1, Some 1, Some 3, Some 3, Some 3, Some 3, Some 3, Some 3]"
  unfolding demo_grid_def by code_simp+




lemma feature_table_group:
  assumes "feature_table t1 t2 events target = Inr T" and "group_of r T \<noteq> []"
  shows "region_events r events \<noteq> []" and "first_day r events \<le> date_of t1"
    and "group_of r T = group_features (extended_block t1 t2 target r events)"
    and "map date (extended_block t1 t2 target r events) = [first_day r events .. date_of t2 + 3]"
proof -
  from assms(1) obtain G where G: "extended_grid t1 t2 events target = Inr G"
    and T: "T = add_features G"
    by (auto simp: feature_table_grid split: sum.splits)
  have gT: "group_of r T = group_features (group_of r G)"
    unfolding T by (rule group_of_add_features)
  then have ne: "group_of r G \<noteq> []" using assms(2) by (auto simp: group_features_def)
  note grp = extended_grid_group[OF G ne]
  show "region_events r events \<noteq> []" by (rule grp(1))
  show "first_day r events \<le> date_of t1" by (rule grp(2))
  show "group_of r T = group_features (extended_block t1 t2 target r events)"
    using gT grp(3) by simp
  show "map date (extended_block t1 t2 target r events) = [first_day r events .. date_of t2 + 3]"
    by (rule extended_block_shape(1)[OF grp(1,2)])
qed

lemma feature_table_regions:
  assumes "feature_table t1 t2 events target = Inr T" and "x \<in> set T"
  shows "region x \<noteq> None"
proof -
  from assms(1) obtain G where G: "extended_grid t1 t2 events target = Inr G"
    and T: "T = add_features G"
    by (auto simp: feature_table_grid split: sum.splits)
  from assms(2) obtain k where k: "k < length G" "x = add_features G ! k"
    unfolding T by (auto simp: in_set_conv_nth)
  then have "region x = region (G ! k)" by (simp add: add_features_row)
  then show ?thesis using extended_grid_regions[OF G nth_mem[OF k(1)]] by simp
qed


lemma demo_today: "date_of demo_now = 4"
  by (simp add: date_of_def demo_now_def)



lemma demo_table_nth:
  assumes "k < 15"
  shows "demo_table ! k \<in> set demo_table"
    and "date (demo_table ! k) = map date demo_grid ! k"
    and "region (demo_table ! k) = map region demo_grid ! k"
    and "mag (demo_table ! k) = map mag demo_grid ! k"
proof -
  have "length (map date demo_grid) = 15" unfolding demo_grid_cols(1) by simp
  then have "length demo_grid = 15" by simp
  then have k: "k < length demo_grid" using assms by simp
  then show "demo_table ! k \<in> set demo_table" by (simp add: demo_table_def)
  show "date (demo_table ! k) = map date demo_grid ! k"
    "region (demo_table ! k) = map region demo_grid ! k"
    "mag (demo_table ! k) = map mag demo_grid ! k"
    using k by (simp_all add: demo_table_def add_features_row)
qed

lemma demo_table_dates: "\<forall>y \<in> set demo_table. 0 \<le> date y"
proof
  fix y assume "y \<in> set demo_table"
  then have "date y \<in> set (map date demo_table)" by simp
  then show "0 \<le> date y"
    unfolding demo_table_def add_features_cols demo_grid_cols by auto
qed

lemma fill_cols:
  "\<And>p x. mag (fill_row p x) = orelse (mag x) (mag p)"
  "\<And>p x. depth (fill_row p x) = orelse (depth x) (depth p)"
  "\<And>p x. latitude (fill_row p x) = orelse (latitude x) (latitude p)"
  "\<And>p x. longitude (fill_row p x) = orelse (longitude x) (longitude p)"
  by simp_all

lemma feature_table_one_region:
  assumes "feature_table t1 t2 events (Some r0) = Inr T" and "x \<in> set T"
  shows "region x = Some r0"
proof -
  from assms(1) obtain G where G: "extended_grid t1 t2 events (Some r0) = Inr G"
    and T: "T = add_features G"
    by (auto simp: feature_table_grid split: sum.splits)
  note one = extended_grid_one[OF G]
  from assms(2) obtain k where k: "k < length G" "x = add_features G ! k"
    unfolding T by (auto simp: in_set_conv_nth)
  have "region (G ! k) = Some r0"
    using nth_mem[OF k(1)] unfolding one(3) by (rule extended_block_shape(2)[OF one(1,2)])
  then show ?thesis using k by (simp add: add_features_row)
qed

lemma feature_table_row:
  assumes "feature_table t1 t2 events target = Inr T" and "x \<in> set T" and "region x = Some r"
  obtains p where "p < length (extended_block t1 t2 target r events)"
    and "x = group_features (extended_block t1 t2 target r events) ! p"
    and "date x = first_day r events + int p"
    and "region_events r events \<noteq> []" and "first_day r events \<le> date_of t1"
    and "group_of r T = group_features (extended_block t1 t2 target r events)"
proof -
  let ?g = "extended_block t1 t2 target r events"
  have xg: "x \<in> set (group_of r T)" using assms(2,3) by (simp add: group_of_def)
  then have ne: "group_of r T \<noteq> []" by auto
  note grp = feature_table_group[OF assms(1) ne]
  from xg obtain p where p: "p < length ?g" "x = group_features ?g ! p"
    unfolding grp(3) by (auto simp: in_set_conv_nth)
  have "date x = first_day r events + int p"
    using p dates_nth[OF grp(4) p(1)] by (simp add: group_features_row)
  then show ?thesis using that p grp by blast
qed

lemma demo_grid_one_ok:
  "extended_grid demo_now demo_now demo_events (Some ''California'') = Inr demo_grid_one"
  unfolding demo_grid_one_def by code_simp

lemma demo_table_one_ok:
  "feature_table demo_now demo_now demo_events (Some ''California'') = Inr demo_table_one"
  by (simp add: feature_table_grid demo_grid_one_ok demo_table_one_def)

lemma demo_grid_one_cols:
  "map date demo_grid_one = [0, 1, 2, 3, 4, 5, 6, 7]"
  "map mag demo_grid_one = [Some 1, Some 1, Some 3, Some 3, Some 3, None, None, None]"
  unfolding demo_grid_one_def by code_simp+

lemma demo_table_one_nth:
  assumes "k < 8"
  shows "demo_table_one ! k \<in> set demo_table_one"
    and "date (demo_table_one ! k) = map date demo_grid_one ! k"
    and "mag (demo_table_one ! k) = map mag demo_grid_one ! k"
proof -
  have "length (map date demo_grid_one) = 8" unfolding demo_grid_one_cols(1) by simp
  then have "length demo_grid_one = 8" by simp
  then have k: "k < length demo_grid_one" using assms by simp
  then show "demo_table_one ! k \<in> set demo_table_one" by (simp add: demo_table_one_def)
  show "date (demo_table_one ! k) = map date demo_grid_one ! k"
    "mag (demo_table_one ! k) = map mag demo_grid_one ! k"
    using k by (simp_all add: demo_table_one_def add_features_row)
qed

lemma solo_grid_ok: "extended_grid 100 100 solo_events None = Inr solo_grid"
  by code_simp

lemma solo_table_ok: "feature_table 100 100 solo_events None = Inr (add_features solo_grid)"
  by (simp add: feature_table_grid solo_grid_ok)

lemma add_features_cells:
  assumes "k < length G"
  shows "i \<in> set lags \<Longrightarrow> mag_lag_at (add_features G ! k) i = group_transform (shift i) mag G ! k"
    and "i \<in> set lags \<Longrightarrow> depth_lag_at (add_features G ! k) i = group_transform (shift i) depth G ! k"
    and "mag_rolling_mean_3 (add_features G ! k)
           = group_transform (rolling START_LAG window_mean) mag G ! k"
proof -
  show "mag_lag_at (add_features G ! k) i = group_transform (shift i) mag G ! k" if "i \<in> set lags"
    using assms lags_nth[OF that] by (simp add: add_features_def frow_of_def mag_lag_at_def)
  show "depth_lag_at (add_features G ! k) i = group_transform (shift i) depth G ! k" if "i \<in> set lags"
    using assms lags_nth[OF that] by (simp add: add_features_def frow_of_def depth_lag_at_def)
  show "mag_rolling_mean_3 (add_features G ! k)
           = group_transform (rolling START_LAG window_mean) mag G ! k"
    using assms by (simp add: add_features_def frow_of_def)
qed

lemma resample_day_cols:
  "\<And>r evs d. mag (resample_day r evs d) = mean (map mag (filter (\<lambda>e. date_of (time e) = d) evs))"
  "\<And>r evs d. depth (resample_day r evs d) = mean (map depth (filter (\<lambda>e. date_of (time e) = d) evs))"
  by (simp_all add: resample_day_def Let_def)

lemma future_lag_defined:
  fixes c :: "row \<Rightarrow> real option" and c' :: "event \<Rightarrow> real option"
  assumes c: "\<And>p x. c (fill_row p x) = orelse (c x) (c p)"
    and c2: "\<And>p x. c (fill_region p x) = c x"
    and cr: "\<And>r evs d. c (resample_day r evs d) = mean (map c' (filter (\<lambda>e. date_of (time e) = d) evs))"
    and e: "e \<in> set events" "canonical_region (place e) = r" "c' e \<noteq> None"
      "date_of (time e) \<le> date_of t1 - 9"
    and t: "date_of t2 = date_of t1"
    and p: "p < length (extended_block t1 t2 target r events)"
      "date_of t1 < first_day r events + int p"
    and i: "i \<in> set lags"
  shows "i \<le> p \<and> c (extended_block t1 t2 target r events ! (p - i)) \<noteq> None"
proof -
  have ev: "region_events r events \<noteq> []" using e by (auto simp: region_events_empty_iff)
  have first: "first_day r events \<le> date_of (time e)" by (rule daily_lookup(2)[OF ev e(1,2)])
  have i3: "3 \<le> i" "i \<le> 10" using i by (simp_all add: set_lags)
  have "p < length [first_day r events .. date_of t2 + 3]"
    using p(1) by (simp only: length_extended_block)
  then have hi: "first_day r events + int p \<le> date_of t1 + 3" by (simp add: length_upto t)
  have ip: "i \<le> p" using first e(4) p(2) i3 by linarith
  have "c (extended_block t1 t2 target r events ! (p - i)) \<noteq> None"
  proof (rule extended_block_defined[OF c c2 cr e(1,2,3)])
    show "date_of (time e) \<le> first_day r events + int (p - i)"
      using e(4) p(2) i3 ip by linarith
    show "first_day r events + int (p - i) \<le> date_of t1" using hi i3 ip by linarith
    show "p - i < length (extended_block t1 t2 target r events)" using p(1) by simp
  qed
  then show ?thesis using ip by simp
qed

lemma late_grid_ok: "extended_grid late_now late_now solo_events None = Inr late_grid"
  unfolding late_grid_def by code_simp

lemma late_table_ok: "feature_table late_now late_now solo_events None = Inr late_table"
  by (simp add: feature_table_grid late_grid_ok late_table_def)

lemma late_table_11:
  "late_table ! 11 \<in> set late_table" "date (late_table ! 11) = 11"
  "region (late_table ! 11) = Some ''California''"
proof -
  have len: "length late_grid = 14" unfolding late_grid_def by code_simp
  then show "late_table ! 11 \<in> set late_table" by (simp add: late_table_def)
  have "date (late_grid ! 11) = 11" "region (late_grid ! 11) = Some ''California''"
    unfolding late_grid_def by code_simp+
  then show "date (late_table ! 11) = 11" "region (late_table ! 11) = Some ''California''"
    using len by (simp_all add: late_table_def add_features_row)
qed

lemma blank_dense_ok: "preprocess_data late_now blank_events blank_events None = Inr blank_dense"
  by code_simp

lemma blank_grid_ok: "extended_grid late_now late_now blank_events None = Inr blank_grid"
  by code_simp

lemma blank_table_ok:
  "feature_table late_now late_now blank_events None = Inr (add_features blank_grid)"
  by (simp add: feature_table_grid blank_grid_ok)

lemma scenario_grid_ok:
  "extended_grid scenario_now scenario_now scenario_events None = Inr (scenario_grid None)"
  "extended_grid scenario_now scenario_now scenario_events (Some ''California'')
     = Inr (scenario_grid (Some ''California''))"
  unfolding scenario_grid_def by code_simp+

lemma scenario_table_ok:
  "feature_table scenario_now scenario_now scenario_events None = Inr (scenario_table None)"
  "feature_table scenario_now scenario_now scenario_events (Some ''California'')
     = Inr (scenario_table (Some ''California''))"
  by (simp_all add: feature_table_grid scenario_grid_ok scenario_table_def)

lemma scenario_grid_cols:
  "map date (scenario_grid None) = [1, 2, 3, 4, 5, 6, 7, 8, 9, 10, 11, 12, 13, 14, 15]"
  "map date (scenario_grid (Some ''California''))
     = [1, 2, 3, 4, 5, 6, 7, 8, 9, 10, 11, 12, 13, 14, 15]"
  "map mag (scenario_grid None) =
     [Some 1, Some (11/10), Some (12/10), Some (13/10), Some (14/10), Some (15/10),
      Some (16/10), Some (17/10), Some (18/10), Some (19/10), Some 2, Some (21/10),
      Some (21/10), Some (21/10), Some (21/10)]"
  "map mag (scenario_grid (Some ''California'')) =
     [Some 1, Some (11/10), Some (12/10), Some (13/10), Some (14/10), Some (15/10),
      Some (16/10), Some (17/10), Some (18/10), Some (19/10), Some 2, Some (21/10),
      None, None, None]"
  unfolding scenario_grid_def by code_simp+

lemma scenario_cells:
  "group_transform (shift 3) mag (scenario_grid None) ! 12 = Some (19/10)"
  "group_transform (shift 3) mag (scenario_grid (Some ''California'')) ! 12 = Some (19/10)"
  "group_transform (rolling START_LAG window_mean) mag (scenario_grid None) ! 12 = Some (31/15)"
  "group_transform (rolling START_LAG window_mean) mag (scenario_grid (Some ''California'')) ! 12
     = None"
  unfolding scenario_grid_def by code_simp+


lemma scenario_table_nth:
  assumes "target = None \<or> target = Some ''California''" and "k < 15"
  shows "date (scenario_table target ! k) = map date (scenario_grid target) ! k"
    and "mag (scenario_table target ! k) = map mag (scenario_grid target) ! k"
    and "mag_lag_at (scenario_table target ! k) 3
           = group_transform (shift 3) mag (scenario_grid target) ! k"
    and "mag_rolling_mean_3 (scenario_table target ! k)
           = group_transform (rolling START_LAG window_mean) mag (scenario_grid target) ! k"
proof -
  have "length (map date (scenario_grid None)) = 15"
    "length (map date (scenario_grid (Some ''California''))) = 15"
    unfolding scenario_grid_cols by simp_all
  then have "length (scenario_grid target) = 15" using assms(1) by auto
  then have k: "k < length (scenario_grid target)" using assms(2) by simp
  have l: "(3::nat) \<in> set lags" by (simp add: set_lags)
  show "date (scenario_table target ! k) = map date (scenario_grid target) ! k"
    "mag (scenario_table target ! k) = map mag (scenario_grid target) ! k"
    using k by (simp_all add: scenario_table_def add_features_row)
  show "mag_lag_at (scenario_table target ! k) 3
           = group_transform (shift 3) mag (scenario_grid target) ! k"
    unfolding scenario_table_def by (rule add_features_cells(1)[OF k l])
  show "mag_rolling_mean_3 (scenario_table target ! k)
           = group_transform (rolling START_LAG window_mean) mag (scenario_grid target) ! k"
    unfolding scenario_table_def by (rule add_features_cells(3)[OF k])
qed

subsection \<open>The forecast table\<close>

lemma map_Date_join_forecast: "map Date (join_forecast df preds) = map date df"
  by (rule nth_equalityI) (simp_all add: join_forecast_def Let_def)

lemma demo_forecast_ok:
  "assemble const_model demo_now demo_now demo_events None = Inr demo_forecast"
  by (simp add: assemble_def demo_table_ok demo_forecast_def)

lemma demo_forecast_dates:
  "map Date demo_forecast = [1, 2, 3, 4, 5, 6, 7, 0, 1, 2, 3, 4, 5, 6, 7]"
  by (simp add: demo_forecast_def map_Date_join_forecast demo_table_def add_features_cols
        demo_grid_cols)

lemma region_local_defs:
  assumes "filter (\<lambda>e. canonical_region (place e) = r) ev1
             = filter (\<lambda>e. canonical_region (place e) = r) ev2"
  shows "region_events r ev1 = region_events r ev2"
    and "first_day r ev1 = first_day r ev2"
    and "extended_block t1 t2 target r ev1 = extended_block t1 t2 target r ev2"
proof -
  show a: "region_events r ev1 = region_events r ev2" by (simp only: region_events_def assms)
  show b: "first_day r ev1 = first_day r ev2" by (simp only: first_day_def assms)
  have "dense_block t1 r ev1 = dense_block t1 r ev2" by (simp only: dense_block_def daily_def a)
  then show "extended_block t1 t2 target r ev1 = extended_block t1 t2 target r ev2"
    by (simp only: extended_block_def b)
qed

lemma get_regions_member:
  assumes "get_regions events = Inr wl"
  shows "r \<in> wl \<longleftrightarrow> r \<in> set known_regions \<and> region_events r events \<noteq> []"
proof -
  from assms have "wl = set known_regions \<inter> set (map (\<lambda>e. canonical_region (place e)) events)"
    by (auto simp: get_regions_def region_column_def split: if_splits)
  then show ?thesis by (auto simp: region_events_empty_iff)
qed

lemma feature_table_group_eq:
  assumes "feature_table t1 t2 events target = Inr T"
  shows "group_of r T =
           (if (case target of None \<Rightarrow> r \<in> set known_regions | Some r0 \<Rightarrow> r = r0)
               \<and> region_events r events \<noteq> [] \<and> first_day r events \<le> date_of t1
            then group_features (extended_block t1 t2 target r events) else [])"
proof -
  from assms obtain G where G: "extended_grid t1 t2 events target = Inr G"
    and T: "T = add_features G"
    by (auto simp: feature_table_grid split: sum.splits)
  have gT: "group_of r T = group_features (group_of r G)"
    unfolding T by (rule group_of_add_features)
  show ?thesis
  proof (cases target)
    case None
    from extended_grid_all(1)[OF G[unfolded None]] obtain wl where
      wl: "get_regions events = Inr wl" and
      g: "group_of r G =
        (if r \<in> wl \<and> region_events r events \<noteq> [] \<and> first_day r events \<le> date_of t1
         then extended_block t1 t2 None r events else [])" by blast
    show ?thesis
      unfolding gT g using get_regions_member[OF wl, of r] None
      by (simp add: group_features_def)
  next
    case (Some r0)
    note one = extended_grid_one[OF G[unfolded Some]]
    have reg: "\<And>x. x \<in> set G \<Longrightarrow> region x = Some r0"
      unfolding one(3) by (rule extended_block_shape(2)[OF one(1,2)])
    show ?thesis
    proof (cases "r = r0")
      case True
      then have "group_of r G = extended_block t1 t2 target r events"
        using group_of_idem[of G r0] reg one(3) Some by simp
      then show ?thesis using gT True one(1,2) Some by simp
    next
      case False
      then have "group_of r G = []" using group_of_other[of G r0 r] reg by blast
      then show ?thesis using gT False Some by (simp add: group_features_def)
    qed
  qed
qed

lemma demo_grid_alt_ok:
  "extended_grid demo_now demo_now demo_events_alt None = Inr demo_grid_alt"
  unfolding demo_grid_alt_def by code_simp

lemma demo_table_alt_ok:
  "feature_table demo_now demo_now demo_events_alt None = Inr demo_table_alt"
  by (simp add: feature_table_grid demo_grid_alt_ok demo_table_alt_def)

lemma demo_table_alt_0: "mag (demo_table_alt ! 0) = Some 6"
proof -
  have "0 < length demo_grid_alt" "mag (demo_grid_alt ! 0) = Some 6"
    unfolding demo_grid_alt_def by code_simp+
  then show ?thesis by (simp add: demo_table_alt_def add_features_row)
qed

section \<open>The claims\<close>

text \<open>
  C2 (as the code has it). The canonicalizer takes the second piece of the split: the text
  after the first delimiter, cut at the next delimiter when there is one (the whole place when
  there is no delimiter), and then maps \<open>CA\<close> to \<open>California\<close> and \<open>B.C.\<close> to
  \<open>Baja California\<close>. On a whole table, line 130 raises KeyError when no place of the table
  has a delimiter.
\<close>

theorem canonical_region_second_piece:
  "canonical_region p =
     replace_alias (case after_first p of None \<Rightarrow> p | Some rest \<Rightarrow> before_first rest)
   \<and> replace_alias ''CA'' = ''California''
   \<and> replace_alias ''B.C.'' = ''Baja California''
   \<and> region_column df =
       (if \<forall>e \<in> set df. after_first (place e) = None then Inl KeyError
        else Inr (map (\<lambda>e. canonical_region (place e)) df))"
proof -
  have "\<And>e. (split_second (place e) = None) = (after_first (place e) = None)"
    by (simp add: split_second_cut split: option.splits)
  then show ?thesis
    by (simp add: canonical_region_def split_second_cut region_column_def replace_alias_def
             split: option.splits)
qed

theorem canonical_region_second_piece_witness:
  "canonical_region ''58 km SSW of Alberto Oviedo Mota, B.C., MX'' = ''Baja California''
   \<and> canonical_region ''5 km NW of The Geysers, CA'' = ''California''
   \<and> canonical_region ''south of the Fiji Islands'' = ''south of the Fiji Islands''"
  using canonical_region_second_piece
          [of "''58 km SSW of Alberto Oviedo Mota, B.C., MX''" "[]"]
        canonical_region_second_piece [of "''5 km NW of The Geysers, CA''" "[]"]
        canonical_region_second_piece [of "''south of the Fiji Islands''" "[]"]
  by (simp add: replace_alias_def)

text \<open>
  C2 as stated fails on a place with two delimiters: the specification's reading keeps
  everything after the first delimiter, the code keeps the middle piece.
\<close>

theorem canonical_region_two_delimiters_counterexample:
  "spec_canonical_region ''58 km SSW of Alberto Oviedo Mota, B.C., MX'' = ''B.C., MX''
   \<and> canonical_region ''58 km SSW of Alberto Oviedo Mota, B.C., MX'' = ''Baja California''
   \<and> canonical_region ''58 km SSW of Alberto Oviedo Mota, B.C., MX''
       \<noteq> spec_canonical_region ''58 km SSW of Alberto Oviedo Mota, B.C., MX''"
  by code_simp

text \<open>
  C10. When a single target region is requested and no event canonicalizes to it,
  \<open>preprocess_data\<close> raises: the date range of line 158 gets a NaT start (or, on a table
  without any delimiter, line 130 has already raised KeyError); it never returns an empty grid.
  The result does not depend on the whitelist table \<open>recent\<close>: a requested region with an
  event gets its grid whatever the whitelist is.
\<close>

theorem preprocess_data_unknown_region:
  "((\<forall>e \<in> set df0. canonical_region (place e) \<noteq> r) \<longrightarrow>
      preprocess_data now recent df0 (Some r) =
        (if \<forall>e \<in> set df0. split_second (place e) = None then Inl KeyError else Inl NaTRange)
      \<and> preprocess_data now recent df0 (Some r) \<noteq> Inr [])
   \<and> ((\<exists>e \<in> set df0. canonical_region (place e) = r) \<and>
       (\<exists>e \<in> set df0. split_second (place e) \<noteq> None) \<longrightarrow>
      preprocess_data now recent df0 (Some r) = Inr (dense_block now r df0))"
  by (auto simp: preprocess_data_one region_events_empty_iff)

theorem preprocess_data_unknown_region_witness:
  "preprocess_data demo_now [] demo_events (Some ''Nevada'') = Inl NaTRange
   \<and> preprocess_data demo_now [] demo_events (Some ''California'')
       = Inr (dense_block demo_now ''California'' demo_events)"
proof -
  have a: "\<forall>e \<in> set demo_events. canonical_region (place e) \<noteq> ''Nevada''" by code_simp
  have b: "\<not> (\<forall>e \<in> set demo_events. split_second (place e) = None)" by code_simp
  have c: "\<exists>e \<in> set demo_events. canonical_region (place e) = ''California''" by code_simp
  show ?thesis
    using preprocess_data_unknown_region [of demo_events "''Nevada''" demo_now "[]"]
      preprocess_data_unknown_region [of demo_events "''California''" demo_now "[]"] a b c
    by simp
qed



text \<open>
  C3. In the feature table, the lag-\<open>i\<close> magnitude (depth) of a row of region \<open>r\<close> at day
  \<open>D\<close> is the magnitude (depth) of the row of the same region at day \<open>D - i\<close>, for every
  lag \<open>i\<close> from 3 to 10; it is absent when \<open>D - i\<close> is before every day of the region.
  No row of another region is read.
\<close>

theorem lag_features:
  assumes "feature_table t1 t2 events target = Inr T"
    and "x \<in> set T" and "region x = Some r" and "i \<in> set lags"
  shows "(\<forall>y \<in> set T. region y = Some r \<and> date y = date x - int i \<longrightarrow>
            mag_lag_at x i = mag y \<and> depth_lag_at x i = depth y)
       \<and> ((\<forall>y \<in> set T. region y = Some r \<longrightarrow> date x - int i < date y) \<longrightarrow>
            mag_lag_at x i = None \<and> depth_lag_at x i = None)"
proof -
  let ?g = "extended_block t1 t2 target r events"
  let ?s = "first_day r events"
  have xg: "x \<in> set (group_of r T)" using assms(2,3) by (simp add: group_of_def)
  then have ne: "group_of r T \<noteq> []" by auto
  note grp = feature_table_group[OF assms(1) ne]
  have set_g: "set (group_of r T) = {y \<in> set T. region y = Some r}"
    by (auto simp: group_of_def)
  from xg obtain p where p: "p < length ?g" "x = group_features ?g ! p"
    unfolding grp(3) by (auto simp: in_set_conv_nth)
  have dx: "date x = ?s + int p"
    using p dates_nth[OF grp(4) p(1)] by (simp add: group_features_row)
  note lag = group_features_lag[OF p(1) assms(4)]
  have first: "(\<forall>y \<in> set T. region y = Some r \<and> date y = date x - int i \<longrightarrow>
            mag_lag_at x i = mag y \<and> depth_lag_at x i = depth y)"
  proof (intro ballI impI)
    fix y assume "y \<in> set T" and y: "region y = Some r \<and> date y = date x - int i"
    then have "y \<in> set (group_of r T)" by (simp add: set_g)
    then obtain q where q: "q < length ?g" "y = group_features ?g ! q"
      unfolding grp(3) by (auto simp: in_set_conv_nth)
    have dy: "date y = ?s + int q"
      using q dates_nth[OF grp(4) q(1)] by (simp add: group_features_row)
    have "int q = int p - int i" using y dx dy by simp
    then have "i \<le> p" and "q = p - i" by linarith+
    then show "mag_lag_at x i = mag y \<and> depth_lag_at x i = depth y"
      using lag p(2) q by (simp add: group_features_row)
  qed
  have second: "(\<forall>y \<in> set T. region y = Some r \<longrightarrow> date x - int i < date y) \<longrightarrow>
            mag_lag_at x i = None \<and> depth_lag_at x i = None"
  proof
    assume all: "\<forall>y \<in> set T. region y = Some r \<longrightarrow> date x - int i < date y"
    have len: "0 < length ?g" using p(1) by (cases ?g) simp_all
    let ?y = "group_features ?g ! 0"
    have "?y \<in> set (group_of r T)" unfolding grp(3) using len by (intro nth_mem) simp
    then have "?y \<in> set T" "region ?y = Some r" by (simp_all add: set_g)
    then have "date x - int i < date ?y" using all by blast
    moreover have "date ?y = ?s" using dates_nth[OF grp(4) len] len by (simp add: group_features_row)
    ultimately have "p < i" using dx by simp
    then show "mag_lag_at x i = None \<and> depth_lag_at x i = None"
      using lag p(2) by simp
  qed
  show ?thesis using first second by blast
qed


theorem lag_features_witness:
  "mag_lag_at (demo_table ! 10) 3 = Some 1 \<and> mag_lag_at (demo_table ! 8) 3 = None"
proof -
  have l: "(3::nat) \<in> set lags" by (simp add: set_lags)
  have a: "mag_lag_at (demo_table ! 10) 3 = mag (demo_table ! 7)"
    using lag_features [OF demo_table_ok demo_table_nth(1) _ l, of 10 "''California''"]
      demo_table_nth [of 10] demo_table_nth [of 7]
    by (simp add: demo_grid_cols)
  have far: "\<forall>y \<in> set demo_table. region y = Some ''California'' \<longrightarrow> - 2 < date y"
    using demo_table_dates by fastforce
  have b: "mag_lag_at (demo_table ! 8) 3 = None"
    using lag_features [OF demo_table_ok demo_table_nth(1) _ l, of 8 "''California''"]
      demo_table_nth [of 8] far
    by (simp add: demo_grid_cols)
  show ?thesis using a b demo_table_nth [of 7] by (simp add: demo_grid_cols)
qed

text \<open>
  C1 (as the code has it). A row of the feature table whose day is after the alignment end
  date (the day of \<open>t1\<close>) is an appended row. In the single-region path it has the requested
  region and no magnitude, depth, latitude or longitude. In the all-regions path the
  extension forward-fills every column: the row repeats the magnitude, depth, latitude and
  longitude of the row of its region at the alignment end date.
\<close>

theorem horizon_rows:
  assumes "feature_table t1 t2 events target = Inr T"
    and "x \<in> set T" and "date_of t1 < date x"
  shows "(\<forall>r0. target = Some r0 \<longrightarrow>
            region x = Some r0 \<and> mag x = None \<and> depth x = None
            \<and> latitude x = None \<and> longitude x = None)
       \<and> (target = None \<longrightarrow>
            (\<exists>y \<in> set T. region y = region x \<and> date y = date_of t1
               \<and> mag x = mag y \<and> depth x = depth y
               \<and> latitude x = latitude y \<and> longitude x = longitude y))"
proof -
  obtain r where r: "region x = Some r"
    using feature_table_regions[OF assms(1,2)] by auto
  let ?g = "extended_block t1 t2 target r events"
  from feature_table_row[OF assms(1,2) r] obtain p where p: "p < length ?g"
    and x: "x = group_features ?g ! p" and dx: "date x = first_day r events + int p"
    and ev: "region_events r events \<noteq> []" and le: "first_day r events \<le> date_of t1"
    and grp: "group_of r T = group_features ?g" by blast
  have fut: "date_of t1 < first_day r events + int p" using assms(3) dx by simp
  have one: "region x = Some r0 \<and> mag x = None \<and> depth x = None
            \<and> latitude x = None \<and> longitude x = None" if t: "target = Some r0" for r0
  proof -
    have "region x = Some r0" using feature_table_one_region assms(1,2) t by blast
    moreover have p': "p < length (extended_block t1 t2 (Some r0) r events)"
      using p by (simp only: t)
    have "mag (extended_block t1 t2 (Some r0) r events ! p) = None"
      by (rule extended_block_future_one[OF ev _ _ p' fut]) simp_all
    moreover have "depth (extended_block t1 t2 (Some r0) r events ! p) = None"
      by (rule extended_block_future_one[OF ev _ _ p' fut]) simp_all
    moreover have "latitude (extended_block t1 t2 (Some r0) r events ! p) = None"
      by (rule extended_block_future_one[OF ev _ _ p' fut]) simp_all
    moreover have "longitude (extended_block t1 t2 (Some r0) r events ! p) = None"
      by (rule extended_block_future_one[OF ev _ _ p' fut]) simp_all
    ultimately show ?thesis using p x by (simp add: group_features_row t)
  qed
  have all: "\<exists>y \<in> set T. region y = region x \<and> date y = date_of t1
               \<and> mag x = mag y \<and> depth x = depth y
               \<and> latitude x = latitude y \<and> longitude x = longitude y" if t: "target = None"
  proof -
    define j0 where "j0 = nat (date_of t1 - first_day r events)"
    have j0: "first_day r events + int j0 = date_of t1" using le by (simp add: j0_def)
    then have j0p: "j0 < length ?g" using fut p by linarith
    let ?y = "group_features ?g ! j0"
    have "?y \<in> set (group_of r T)" unfolding grp using j0p by (intro nth_mem) simp
    then have yT: "?y \<in> set T" and ry: "region ?y = Some r" by (simp_all add: group_of_def)
    have dates: "map date ?g = [first_day r events .. date_of t2 + 3]"
      by (rule extended_block_shape(1)[OF ev le])
    have dy: "date ?y = date_of t1"
      using dates_nth[OF dates j0p] j0 j0p by (simp add: group_features_row)
    have p': "p < length (extended_block t1 t2 None r events)"
      using p by (simp only: t)
    have "mag (extended_block t1 t2 None r events ! p) = mag (extended_block t1 t2 None r events ! j0)"
      unfolding j0_def by (rule extended_block_future_all[OF ev le _ _ p' fut]) simp_all
    moreover have "depth (extended_block t1 t2 None r events ! p)
               = depth (extended_block t1 t2 None r events ! j0)"
      unfolding j0_def by (rule extended_block_future_all[OF ev le _ _ p' fut]) simp_all
    moreover have "latitude (extended_block t1 t2 None r events ! p)
               = latitude (extended_block t1 t2 None r events ! j0)"
      unfolding j0_def by (rule extended_block_future_all[OF ev le _ _ p' fut]) simp_all
    moreover have "longitude (extended_block t1 t2 None r events ! p)
               = longitude (extended_block t1 t2 None r events ! j0)"
      unfolding j0_def by (rule extended_block_future_all[OF ev le _ _ p' fut]) simp_all
    ultimately have "mag x = mag ?y \<and> depth x = depth ?y
               \<and> latitude x = latitude ?y \<and> longitude x = longitude ?y"
      using p j0p x by (simp add: group_features_row t)
    then show ?thesis using yT ry dy r by auto
  qed
  show ?thesis using one all by blast
qed


theorem horizon_rows_witness:
  "date (demo_table_one ! 5) = 5 \<and> mag (demo_table_one ! 5) = None
   \<and> depth (demo_table_one ! 5) = None \<and> latitude (demo_table_one ! 5) = None
   \<and> longitude (demo_table_one ! 5) = None
   \<and> region (demo_table_one ! 5) = Some ''California''
   \<and> (\<exists>y \<in> set demo_table. region y = Some ''California'' \<and> date y = 4
         \<and> mag (demo_table ! 12) = mag y \<and> depth (demo_table ! 12) = depth y)"
proof -
  have a: "date_of demo_now < date (demo_table_one ! 5)"
    using demo_table_one_nth [of 5] by (simp add: demo_grid_one_cols demo_today)
  have b: "date_of demo_now < date (demo_table ! 12)"
    using demo_table_nth [of 12] by (simp add: demo_grid_cols demo_today)
  show ?thesis
    using horizon_rows [OF demo_table_one_ok demo_table_one_nth(1) a]
      horizon_rows [OF demo_table_ok demo_table_nth(1) b]
      demo_table_one_nth [of 5] demo_table_nth [of 12]
    by (simp add: demo_grid_one_cols demo_grid_cols demo_today) blast
qed

text \<open>
  C1 as stated fails in the all-regions path. One California event of magnitude 2 and
  depth 5 on day 0, pipeline run on day 0: the appended row of day 1 carries magnitude 2,
  depth 5 and the position of the event.
\<close>

theorem horizon_all_regions_counterexample:
  "feature_table 100 100 solo_events None = Inr (add_features solo_grid)
   \<and> date_of 100 = 0
   \<and> date (add_features solo_grid ! 1) = 1
   \<and> region (add_features solo_grid ! 1) = Some ''California''
   \<and> mag (add_features solo_grid ! 1) = Some 2
   \<and> depth (add_features solo_grid ! 1) = Some 5
   \<and> latitude (add_features solo_grid ! 1) = Some 38
   \<and> longitude (add_features solo_grid ! 1) = Some (- 122)"
  by (simp add: solo_table_ok date_of_def add_features_row solo_grid_def)

text \<open>
  C4 (as the code has it). With a horizon of 3 days and lags from 3, every appended row of a
  region has all its magnitude and depth lags 3 to 10 defined, provided the region has an
  event with a magnitude and an event with a depth at least 9 days before today: then the
  grid has at least 10 days of history, and the forward fill has a value on each of them.
\<close>

theorem future_lags_defined:
  assumes "feature_table t1 t2 events target = Inr T" and "date_of t2 = date_of t1"
    and "x \<in> set T" and "region x = Some r" and "date_of t1 < date x" and "i \<in> set lags"
    and "em \<in> set events" and "canonical_region (place em) = r" and "mag em \<noteq> None"
    and "date_of (time em) \<le> date_of t1 - 9"
    and "ed \<in> set events" and "canonical_region (place ed) = r" and "depth ed \<noteq> None"
    and "date_of (time ed) \<le> date_of t1 - 9"
  shows "mag_lag_at x i \<noteq> None \<and> depth_lag_at x i \<noteq> None"
proof -
  let ?g = "extended_block t1 t2 target r events"
  from feature_table_row[OF assms(1,3,4)] obtain p where p: "p < length ?g"
    and x: "x = group_features ?g ! p" and dx: "date x = first_day r events + int p"
    by blast
  have fut: "date_of t1 < first_day r events + int p" using assms(5) dx by simp
  have m: "i \<le> p \<and> mag (?g ! (p - i)) \<noteq> None"
    by (rule future_lag_defined[OF fill_cols(1) _ resample_day_cols(1) assms(7-10) assms(2) p fut assms(6)])
       simp
  have d: "i \<le> p \<and> depth (?g ! (p - i)) \<noteq> None"
    by (rule future_lag_defined[OF fill_cols(2) _ resample_day_cols(2) assms(11-14) assms(2) p fut assms(6)])
       simp
  show ?thesis
    using group_features_lag[OF p assms(6)] m d x by simp
qed


theorem future_lags_defined_witness:
  "date_of late_now = 10 \<and> date (late_table ! 11) = 11
   \<and> mag_lag_at (late_table ! 11) 3 \<noteq> None \<and> depth_lag_at (late_table ! 11) 3 \<noteq> None
   \<and> mag_lag_at (late_table ! 11) 10 \<noteq> None \<and> depth_lag_at (late_table ! 11) 10 \<noteq> None"
proof -
  have today: "date_of late_now = 10" by (simp add: date_of_def late_now_def)
  have e: "quake 10 ''4 km N of X, CA'' 2 5 \<in> set solo_events"
    by (simp add: solo_events_def)
  have c: "canonical_region (place (quake 10 ''4 km N of X, CA'' 2 5)) = ''California''"
    by code_simp
  have v: "mag (quake 10 ''4 km N of X, CA'' 2 5) \<noteq> None"
    "depth (quake 10 ''4 km N of X, CA'' 2 5) \<noteq> None"
    by (simp_all add: quake_def)
  have d: "date_of (time (quake 10 ''4 km N of X, CA'' 2 5)) \<le> date_of late_now - 9"
    by (simp add: quake_def date_of_def late_now_def)
  have f: "date_of late_now < date (late_table ! 11)" by (simp add: today late_table_11)
  have l: "(3::nat) \<in> set lags" "(10::nat) \<in> set lags" by (simp_all add: set_lags)
  show ?thesis
    using future_lags_defined [OF late_table_ok refl late_table_11(1,3) f l(1) e c v(1) d e c v(2) d]
      future_lags_defined [OF late_table_ok refl late_table_11(1,3) f l(2) e c v(1) d e c v(2) d]
    by (simp add: today late_table_11)
qed

text \<open>
  C4 as stated fails when the history has rows but no values. One California event on day 0
  without magnitude and depth, pipeline run on day 10: the dense grid has the eleven days
  0 to 10 for California, and the appended row of day 11 has no lag-3 magnitude and no
  lag-3 depth.
\<close>

theorem future_lags_absent_counterexample:
  "preprocess_data late_now blank_events blank_events None = Inr blank_dense
   \<and> length (group_of ''California'' blank_dense) = 11
   \<and> feature_table late_now late_now blank_events None = Inr (add_features blank_grid)
   \<and> date_of late_now = 10
   \<and> date (add_features blank_grid ! 11) = 11
   \<and> region (add_features blank_grid ! 11) = Some ''California''
   \<and> mag_lag_at (add_features blank_grid ! 11) 3 = None
   \<and> depth_lag_at (add_features blank_grid ! 11) 3 = None"
proof -
  have len: "(11::nat) < length blank_grid" by (simp add: blank_grid_def)
  have l: "(3::nat) \<in> set lags" by (simp add: set_lags)
  have a: "length (group_of ''California'' blank_dense) = 11" by code_simp
  have b: "group_transform (shift 3) mag blank_grid ! 11 = None"
    "group_transform (shift 3) depth blank_grid ! 11 = None" by code_simp+
  have c: "date (blank_grid ! 11) = 11" "region (blank_grid ! 11) = Some ''California''"
    by (simp_all add: blank_grid_def blank_row_def)
  have today: "date_of late_now = 10" by (simp add: date_of_def late_now_def)
  show ?thesis
    using a b c today
    by (simp add: blank_dense_ok blank_table_ok add_features_cells[OF len] l
          add_features_row[OF len])
qed

text \<open>
  C5 (as the code has it). California has one event on each of the days 1 to 12, with
  magnitudes 1.0, 1.1, ..., 2.1, and the pipeline runs on day 12. Row 12 of the feature table
  is day 13, the first future day. Its \<open>mag_lag_3\<close> is the magnitude of day 10, 1.9. Its
  \<open>mag_rolling_mean_3\<close> is the rolling mean of the magnitude column over the days 11 to
  13: absent in the single-region path, where day 13 has no magnitude, and
  (2.0 + 2.1 + 2.1) / 3 in the all-regions path, where day 13 repeats the magnitude of day 12.
\<close>

theorem scenario_day_13:
  assumes "target = None \<or> target = Some ''California''"
  shows "feature_table scenario_now scenario_now scenario_events target
           = Inr (scenario_table target)
       \<and> date (scenario_table target ! 12) = 13
       \<and> date (scenario_table target ! 9) = 10
       \<and> mag (scenario_table target ! 9) = Some (19/10)
       \<and> mag_lag_at (scenario_table target ! 12) 3 = mag (scenario_table target ! 9)
       \<and> mag_rolling_mean_3 (scenario_table target ! 12)
           = (case target of None \<Rightarrow> Some ((2 + 21/10 + 21/10) / 3) | Some _ \<Rightarrow> None)"
  using assms scenario_table_nth [OF assms, of 12] scenario_table_nth [OF assms, of 9]
  by (auto simp: scenario_table_ok scenario_grid_cols scenario_cells)

theorem scenario_day_13_witness:
  "feature_table scenario_now scenario_now scenario_events (Some ''California'')
     = Inr (scenario_table (Some ''California''))
   \<and> mag_lag_at (scenario_table (Some ''California'') ! 12) 3 = Some (19/10)
   \<and> mag_rolling_mean_3 (scenario_table (Some ''California'') ! 12) = None"
  using scenario_day_13 [of "Some ''California''"] by simp

text \<open>
  C5 as stated fails in both paths: the days 8 to 10 have the magnitudes 1.7, 1.8 and 1.9,
  and the \<open>mag_rolling_mean_3\<close> of day 13 is not their mean.
\<close>

theorem scenario_rolling_mean_counterexample:
  "mag (scenario_table (Some ''California'') ! 7) = Some (17/10)
   \<and> mag (scenario_table (Some ''California'') ! 8) = Some (18/10)
   \<and> mag (scenario_table (Some ''California'') ! 9) = Some (19/10)
   \<and> mag_rolling_mean_3 (scenario_table (Some ''California'') ! 12) = None
   \<and> mag_rolling_mean_3 (scenario_table (Some ''California'') ! 12)
       \<noteq> Some ((17/10 + 18/10 + 19/10) / 3)
   \<and> mag_rolling_mean_3 (scenario_table None ! 12) = Some (31/15)
   \<and> mag_rolling_mean_3 (scenario_table None ! 12) \<noteq> Some ((17/10 + 18/10 + 19/10) / 3)"
proof -
  have a: "Some ''California'' = None \<or> Some ''California'' = Some ''California''" by simp
  have b: "(None :: string option) = None \<or> None = Some ''California''" by simp
  show ?thesis
    using scenario_table_nth [OF a, of 7] scenario_table_nth [OF a, of 8]
      scenario_table_nth [OF a, of 9] scenario_table_nth [OF a, of 12]
      scenario_table_nth [OF b, of 12]
    by (simp add: scenario_grid_cols scenario_cells)
qed

text \<open>
  C6. The two views are windows of the one assembled table: \<open>get_forecast\<close> returns its
  rows dated from 7 days before the run date on, \<open>forecast_earthquakes\<close> (all regions) its
  rows dated from the run date on, and the second is a part of the first.
\<close>

theorem forecast_windows:
  assumes "assemble predict t1 t2 events target = Inr T"
    and "date_of t3 = today" and "date_of t4 = today"
  shows "get_forecast predict t1 t2 t3 events target = Inr (filter (\<lambda>x. today - 7 \<le> Date x) T)
       \<and> (target = None \<longrightarrow>
            forecast_earthquakes predict t1 t2 t3 t4 events
              = Inr (filter (\<lambda>x. today \<le> Date x) T)
            \<and> set (filter (\<lambda>x. today \<le> Date x) T)
                \<subseteq> set (filter (\<lambda>x. today - 7 \<le> Date x) T))"
proof -
  have g: "get_forecast predict t1 t2 t3 events target = Inr (filter (\<lambda>x. today - 7 \<le> Date x) T)"
    using assms(1,2) by (simp add: get_forecast_def)
  have f: "filter (\<lambda>x. today \<le> Date x) (filter (\<lambda>x. today - 7 \<le> Date x) T)
          = filter (\<lambda>x. today \<le> Date x) T"
    by (induction T) auto
  have "forecast_earthquakes predict t1 t2 t3 t4 events = Inr (filter (\<lambda>x. today \<le> Date x) T)"
    if "target = None"
    using g[unfolded that] by (simp only: forecast_earthquakes_def sum.case assms(3) f)
  then show ?thesis using g by auto
qed


theorem forecast_windows_witness:
  "get_forecast const_model demo_now demo_now demo_now demo_events None
     = Inr (filter (\<lambda>x. - 3 \<le> Date x) demo_forecast)
   \<and> forecast_earthquakes const_model demo_now demo_now demo_now (demo_now + 60) demo_events
       = Inr (filter (\<lambda>x. 4 \<le> Date x) demo_forecast)
   \<and> set (filter (\<lambda>x. 4 \<le> Date x) demo_forecast)
       \<subseteq> set (filter (\<lambda>x. - 3 \<le> Date x) demo_forecast)"
proof -
  have a: "date_of demo_now = 4" "date_of (demo_now + 60) = 4"
    by (simp_all add: date_of_def demo_now_def)
  show ?thesis
    using forecast_windows [OF demo_forecast_ok a] by simp
qed

text \<open>
  C7. The feature rows of a region, with their lag and rolling columns, are a function of
  the events of that region alone: two runs on tables that have the same events for region
  \<open>r\<close>, and anything else for the other regions, give the same rows for \<open>r\<close>.
\<close>

theorem features_region_local:
  assumes "feature_table t1 t2 ev1 target = Inr T1"
    and "feature_table t1 t2 ev2 target = Inr T2"
    and "filter (\<lambda>e. canonical_region (place e) = r) ev1
           = filter (\<lambda>e. canonical_region (place e) = r) ev2"
  shows "group_of r T1 = group_of r T2"
  unfolding feature_table_group_eq[OF assms(1)] feature_table_group_eq[OF assms(2)]
    region_local_defs[OF assms(3)] ..


theorem features_region_local_witness:
  "mag (demo_table ! 0) = Some 2 \<and> mag (demo_table_alt ! 0) = Some 6
   \<and> group_of ''California'' demo_table = group_of ''California'' demo_table_alt"
proof -
  have same: "filter (\<lambda>e. canonical_region (place e) = ''California'') demo_events
                = filter (\<lambda>e. canonical_region (place e) = ''California'') demo_events_alt"
    by code_simp
  show ?thesis
    using features_region_local [OF demo_table_ok demo_table_alt_ok same]
      demo_table_nth [of 0] demo_table_alt_0
    by (simp add: demo_grid_cols)
qed

end
